theory Spec2Isabelle
  imports Main "HOL-Library.AList"
begin

section \<open>Google Docs Labels: the label store of \<open>content.js\<close>\<close>

text \<open>
  The content script keeps, for the document that is open, an ordered list of labels in the
  global \<open>labels\<close>, stores it with the document's title and address under the key
  \<open>gd-labels-<documentId>\<close> of \<open>localStorage\<close>, finds the documents that carry a label by
  scanning all such keys, exchanges a label's document list as JSON text, and reloads the
  list when another tab has changed the stored value.

  This theory embeds that part of the script: the globals become a record that every
  function takes and returns, a value thrown by the platform becomes the left summand of a
  sum type, and every \<open>try\<close> \<open>catch\<close> of the script is a case distinction on it.  A
  function that can throw after it has changed the globals returns the exception, if any,
  together with the state it leaves behind.  The functions keep the names they have in the
  script.  The platform operations the script calls (\<open>JSON.parse\<close>, \<open>JSON.stringify\<close>,
  \<open>localStorage\<close>, \<open>splice\<close>, \<open>includes\<close>, string conversion, the regular expression
  for document ids) are embedded with their ECMAScript meaning; where a restriction is made
  it is stated with the definition.
\<close>

subsection \<open>JSON values\<close>

text \<open>
  A value that \<open>JSON.parse\<close> returns.  A string is a list of 8-bit code units and a
  number is an exact integer: JSON texts with a fraction, an exponent or a \<open>\u\<close> escape
  above \<open>00FF\<close> are outside the embedded fragment (the parser below rejects them), and
  the rounding of large integers to IEEE doubles is not modelled.  An object is the list of
  its own properties in the order in which JavaScript enumerates them.
\<close>

datatype json =
    JNull
  | JBool bool
  | JNum int
  | JStr string
  | JArr "json list"
  | JObj "(string \<times> json) list"

definition dquote :: char where "dquote = CHR 0x22"
definition bslash :: char where "bslash = CHR 0x5C"

definition hex_char :: "nat \<Rightarrow> char" where
  "hex_char n = ''0123456789abcdef'' ! n"

definition is_digit :: "char \<Rightarrow> bool" where
  "is_digit c = (48 \<le> (of_char c :: nat) \<and> (of_char c :: nat) \<le> 57)"

definition digit_val :: "char \<Rightarrow> int" where
  "digit_val c = of_char c - 48"

definition hex_val :: "char \<Rightarrow> nat option" where
  "hex_val c =
     (let n = (of_char c :: nat) in
      if 48 \<le> n \<and> n \<le> 57 then Some (n - 48)
      else if 97 \<le> n \<and> n \<le> 102 then Some (n - 87)
      else if 65 \<le> n \<and> n \<le> 70 then Some (n - 55)
      else None)"

subsection \<open>\<open>JSON.stringify\<close>\<close>

text \<open>
  Serialization without indentation, as in \<open>JSON.stringify(data)\<close>: decimal digits for a
  number, the two-character escapes for quote, backslash and the five named control
  characters, \<open>\u00XX\<close> for the other characters below \<open>0x20\<close>, properties in enumeration
  order.
\<close>

function show_digits :: "int \<Rightarrow> string" where
  "show_digits n =
     (if n < 10 then [hex_char (nat n)]
      else show_digits (n div 10) @ [hex_char (nat (n mod 10))])"
  by pat_completeness auto
termination
  by (relation "measure nat") auto

declare show_digits.simps [simp del]

definition show_int :: "int \<Rightarrow> string" where
  "show_int i = (if i < 0 then CHR ''-'' # show_digits (- i) else show_digits i)"

definition escape_char :: "char \<Rightarrow> string" where
  "escape_char c =
     (if c = dquote then [bslash, dquote]
      else if c = bslash then [bslash, bslash]
      else if c = CHR 0x08 then [bslash, CHR ''b'']
      else if c = CHR 0x0C then [bslash, CHR ''f'']
      else if c = CHR 0x0A then [bslash, CHR ''n'']
      else if c = CHR 0x0D then [bslash, CHR ''r'']
      else if c = CHR 0x09 then [bslash, CHR ''t'']
      else if (of_char c :: nat) < 32
        then [bslash, CHR ''u'', CHR ''0'', CHR ''0'',
              hex_char ((of_char c :: nat) div 16), hex_char ((of_char c :: nat) mod 16)]
      else [c])"

definition quote :: "string \<Rightarrow> string" where
  "quote s = dquote # concat (map escape_char s) @ [dquote]"

fun commas :: "string list \<Rightarrow> string" where
  "commas [] = []"
| "commas [x] = x"
| "commas (x # y # ys) = x @ CHR '','' # commas (y # ys)"

fun JSON_stringify :: "json \<Rightarrow> string" where
  "JSON_stringify JNull = ''null''"
| "JSON_stringify (JBool b) = (if b then ''true'' else ''false'')"
| "JSON_stringify (JNum n) = show_int n"
| "JSON_stringify (JStr s) = quote s"
| "JSON_stringify (JArr xs) = CHR ''['' # commas (map JSON_stringify xs) @ '']''"
| "JSON_stringify (JObj kvs) =
     CHR ''{'' # commas (map (\<lambda>kv. quote (fst kv) @ CHR '':'' # JSON_stringify (snd kv)) kvs) @ ''}''"

subsection \<open>\<open>JSON.parse\<close>: tokens\<close>

text \<open>
  \<open>JSON.parse\<close> is embedded as a lexer followed by a pushdown recognizer, both total on
  every input; \<open>None\<close> stands for the \<open>SyntaxError\<close> that \<open>JSON.parse\<close> throws.  White
  space is the four characters of the JSON grammar, a number has no leading zero, and a raw
  control character inside a string is rejected.
\<close>

datatype token =
    LBrace | RBrace | LBrack | RBrack | Colon | Comma
  | TStr string | TNum int | TTrue | TFalse | TNull

definition unescape :: "char \<Rightarrow> char option" where
  "unescape e =
     (if e = dquote then Some dquote
      else if e = bslash then Some bslash
      else if e = CHR ''/'' then Some (CHR ''/'')
      else if e = CHR ''b'' then Some (CHR 0x08)
      else if e = CHR ''f'' then Some (CHR 0x0C)
      else if e = CHR ''n'' then Some (CHR 0x0A)
      else if e = CHR ''r'' then Some (CHR 0x0D)
      else if e = CHR ''t'' then Some (CHR 0x09)
      else None)"

definition hex4 :: "char \<Rightarrow> char \<Rightarrow> char \<Rightarrow> char \<Rightarrow> nat option" where
  "hex4 a b c d =
     (case (hex_val a, hex_val b, hex_val c, hex_val d) of
        (Some x, Some y, Some z, Some w) \<Rightarrow> Some (((x * 16 + y) * 16 + z) * 16 + w)
      | _ \<Rightarrow> None)"

definition cons_str :: "char \<Rightarrow> (string \<times> string) option \<Rightarrow> (string \<times> string) option" where
  "cons_str c r = map_option (\<lambda>p. (c # fst p, snd p)) r"

fun lex_string :: "string \<Rightarrow> (string \<times> string) option" where
  "lex_string [] = None"
| "lex_string (c # cs) =
     (if c = dquote then Some ([], cs)
      else if c = bslash then
        (case cs of
           [] \<Rightarrow> None
         | e # r \<Rightarrow>
             if e = CHR ''u'' then
               (case r of
                  h1 # h2 # h3 # h4 # r' \<Rightarrow>
                    (case hex4 h1 h2 h3 h4 of
                       None \<Rightarrow> None
                     | Some n \<Rightarrow> if n < 256 then cons_str (char_of n) (lex_string r') else None)
                | _ \<Rightarrow> None)
             else
               (case unescape e of
                  None \<Rightarrow> None
                | Some ch \<Rightarrow> cons_str ch (lex_string r)))
      else if (of_char c :: nat) < 32 then None
      else cons_str c (lex_string cs))"

definition digits_val :: "string \<Rightarrow> int" where
  "digits_val ds = foldl (\<lambda>a c. a * 10 + digit_val c) 0 ds"

definition lex_digits :: "string \<Rightarrow> (int \<times> string) option" where
  "lex_digits s =
     (case s of
        [] \<Rightarrow> None
      | c # cs \<Rightarrow>
          if \<not> is_digit c then None
          else if c = CHR ''0'' then Some (0, cs)
          else Some (digits_val (takeWhile is_digit s), dropWhile is_digit s))"

definition lex_number :: "string \<Rightarrow> (int \<times> string) option" where
  "lex_number s =
     (case (case s of
              c # cs \<Rightarrow> if c = CHR ''-'' then map_option (\<lambda>p. (- fst p, snd p)) (lex_digits cs)
                         else lex_digits s
            | [] \<Rightarrow> None) of
        None \<Rightarrow> None
      | Some (n, r) \<Rightarrow>
          (case r of
             [] \<Rightarrow> Some (n, r)
           | d # _ \<Rightarrow> if d = CHR ''.'' \<or> d = CHR ''e'' \<or> d = CHR ''E'' then None else Some (n, r)))"

definition is_ws :: "char \<Rightarrow> bool" where
  "is_ws c = (c = CHR '' '' \<or> c = CHR 0x09 \<or> c = CHR 0x0A \<or> c = CHR 0x0D)"

definition cons_tok :: "token \<Rightarrow> token list option \<Rightarrow> token list option" where
  "cons_tok t r = map_option ((#) t) r"

function lex :: "string \<Rightarrow> token list option" where
  "lex [] = Some []"
| "lex (c # cs) =
     (if is_ws c then lex cs
      else if c = CHR ''{'' then cons_tok LBrace (lex cs)
      else if c = CHR ''}'' then cons_tok RBrace (lex cs)
      else if c = CHR ''['' then cons_tok LBrack (lex cs)
      else if c = CHR '']'' then cons_tok RBrack (lex cs)
      else if c = CHR '':'' then cons_tok Colon (lex cs)
      else if c = CHR '','' then cons_tok Comma (lex cs)
      else if c = dquote then
        (case lex_string cs of
           None \<Rightarrow> None
         | Some (s, r) \<Rightarrow> cons_tok (TStr s) (lex r))
      else if c = CHR ''-'' \<or> is_digit c then
        (case lex_number (c # cs) of
           None \<Rightarrow> None
         | Some (n, r) \<Rightarrow> cons_tok (TNum n) (lex r))
      else if take 4 (c # cs) = ''true'' then cons_tok TTrue (lex (drop 3 cs))
      else if take 5 (c # cs) = ''false'' then cons_tok TFalse (lex (drop 4 cs))
      else if take 4 (c # cs) = ''null'' then cons_tok TNull (lex (drop 3 cs))
      else None)"
  by pat_completeness auto
termination
proof (relation "measure length")
  have str: "\<And>cs s r. lex_string cs = Some (s, r) \<Longrightarrow> length r < Suc (length cs)"
  proof -
    fix cs :: string and s r
    show "lex_string cs = Some (s, r) \<Longrightarrow> length r < Suc (length cs)"
    proof (induction cs arbitrary: s r rule: lex_string.induct)
      case 1
      then show ?case by simp
    next
      case (2 c cs)
      then show ?case
        by (auto simp: cons_str_def split: if_splits list.splits option.splits) fastforce+
    qed
  qed
  have dig: "\<And>cs n r. lex_digits cs = Some (n, r) \<Longrightarrow> length r < Suc (length cs)"
  proof -
    fix cs :: string and n r
    assume "lex_digits cs = Some (n, r)"
    then have "r = tl cs \<or> r = dropWhile is_digit cs"
      by (auto simp: lex_digits_def split: list.splits if_splits)
    then show "length r < Suc (length cs)"
      using length_dropWhile_le [of is_digit cs] by (cases cs) auto
  qed
  have num: "\<And>c cs n r. lex_number (c # cs) = Some (n, r) \<Longrightarrow> length r < Suc (length cs)"
  proof -
    fix c :: char and cs n r
    assume a: "lex_number (c # cs) = Some (n, r)"
    show "length r < Suc (length cs)"
    proof (cases "c = CHR ''-''")
      case True
      with a obtain m where "lex_digits cs = Some (m, r)"
        by (auto simp: lex_number_def split: option.splits list.splits if_splits)
      from dig [OF this] show ?thesis by simp
    next
      case False
      with a obtain m where m: "lex_digits (c # cs) = Some (m, r)"
        by (auto simp: lex_number_def split: option.splits list.splits if_splits)
      then have "r = cs \<or> r = dropWhile is_digit cs"
        by (auto simp: lex_digits_def split: if_splits)
      then show ?thesis
        using length_dropWhile_le [of is_digit cs] by auto
    qed
  qed
  show "wf (measure length)" by simp
  show "\<And>c cs x2 x y. lex_string cs = Some x2 \<Longrightarrow> (x, y) = x2 \<Longrightarrow> (y, c # cs) \<in> measure length"
    using str by auto
  show "\<And>c cs x2 x y. lex_number (c # cs) = Some x2 \<Longrightarrow> (x, y) = x2 \<Longrightarrow> (y, c # cs) \<in> measure length"
    using num by auto
qed auto

subsection \<open>\<open>JSON.parse\<close>: values\<close>

text \<open>
  The recognizer reads the tokens from left to right with a stack of the arrays and objects
  that are still open.  \<open>PDone v\<close> is the state after a complete value \<open>v\<close>; at the end of
  the input it is accepted only on the empty stack.
\<close>

datatype frame = FArr "json list" | FObj "(string \<times> json) list" string

datatype pstate =
    PValue
  | PArrStart
  | PObjStart
  | PKey "(string \<times> json) list"
  | PColon "(string \<times> json) list" string
  | PDone json

fun value_start :: "token \<Rightarrow> pstate option" where
  "value_start (TStr s) = Some (PDone (JStr s))"
| "value_start (TNum n) = Some (PDone (JNum n))"
| "value_start TTrue = Some (PDone (JBool True))"
| "value_start TFalse = Some (PDone (JBool False))"
| "value_start TNull = Some (PDone JNull)"
| "value_start LBrack = Some PArrStart"
| "value_start LBrace = Some PObjStart"
| "value_start _ = None"

fun pda :: "pstate \<Rightarrow> frame list \<Rightarrow> token list \<Rightarrow> json option" where
  "pda (PDone v) [] [] = Some v"
| "pda PValue stk (t # ts) =
     (case value_start t of None \<Rightarrow> None | Some st \<Rightarrow> pda st stk ts)"
| "pda PArrStart stk (t # ts) =
     (if t = RBrack then pda (PDone (JArr [])) stk ts
      else case value_start t of None \<Rightarrow> None | Some st \<Rightarrow> pda st (FArr [] # stk) ts)"
| "pda PObjStart stk (t # ts) =
     (case t of
        RBrace \<Rightarrow> pda (PDone (JObj [])) stk ts
      | TStr k \<Rightarrow> pda (PColon [] k) stk ts
      | _ \<Rightarrow> None)"
| "pda (PKey acc) stk (t # ts) =
     (case t of TStr k \<Rightarrow> pda (PColon acc k) stk ts | _ \<Rightarrow> None)"
| "pda (PColon acc k) stk (t # ts) =
     (if t = Colon then pda PValue (FObj acc k # stk) ts else None)"
| "pda (PDone v) (FArr acc # stk) (t # ts) =
     (case t of
        Comma \<Rightarrow> pda PValue (FArr (v # acc) # stk) ts
      | RBrack \<Rightarrow> pda (PDone (JArr (rev (v # acc)))) stk ts
      | _ \<Rightarrow> None)"
| "pda (PDone v) (FObj acc k # stk) (t # ts) =
     (case t of
        Comma \<Rightarrow> pda (PKey ((k, v) # acc)) stk ts
      | RBrace \<Rightarrow> pda (PDone (JObj (rev ((k, v) # acc)))) stk ts
      | _ \<Rightarrow> None)"
| "pda _ _ _ = None"

text \<open>
  \<open>obj_define\<close> is the definition of one property on an object: a key that is present
  keeps its position and takes the new value, a new array index (a canonical numeral below
  \<open>2^32 - 1\<close>) goes among the indices in ascending order, and any other new key goes to the
  end.  \<open>normalise\<close> builds every object of a value in this way, so that a key written
  twice in a JSON text keeps its last value.
\<close>

definition digits_ok :: "string \<Rightarrow> bool" where
  "digits_ok k = (k \<noteq> [] \<and> list_all is_digit k \<and> (k = ''0'' \<or> hd k \<noteq> CHR ''0''))"

definition is_array_index :: "string \<Rightarrow> bool" where
  "is_array_index k = (digits_ok k \<and> digits_val k < 4294967295)"

fun insert_index :: "string \<Rightarrow> json \<Rightarrow> (string \<times> json) list \<Rightarrow> (string \<times> json) list" where
  "insert_index k v [] = [(k, v)]"
| "insert_index k v (p # ps) =
     (if is_array_index (fst p) \<and> digits_val (fst p) < digits_val k
      then p # insert_index k v ps
      else (k, v) # p # ps)"

definition obj_define :: "(string \<times> json) list \<Rightarrow> string \<Rightarrow> json \<Rightarrow> (string \<times> json) list" where
  "obj_define kvs k v =
     (if k \<in> fst ` set kvs then AList.update k v kvs
      else if is_array_index k then insert_index k v kvs
      else kvs @ [(k, v)])"

definition build_object :: "(string \<times> json) list \<Rightarrow> (string \<times> json) list \<Rightarrow> (string \<times> json) list" where
  "build_object acc kvs = foldl (\<lambda>acc kv. obj_define acc (fst kv) (snd kv)) acc kvs"

fun normalise :: "json \<Rightarrow> json" where
  "normalise (JArr xs) = JArr (map normalise xs)"
| "normalise (JObj kvs) = JObj (build_object [] (map (\<lambda>kv. (fst kv, normalise (snd kv))) kvs))"
| "normalise v = v"

text \<open>
  \<open>raw_parse\<close> gives the value as written, \<open>JSON_parse\<close> the value as JavaScript holds
  it.
\<close>

definition raw_parse :: "string \<Rightarrow> json option" where
  "raw_parse s = (case lex s of None \<Rightarrow> None | Some ts \<Rightarrow> pda PValue [] ts)"

definition JSON_parse :: "string \<Rightarrow> json option" where
  "JSON_parse s = map_option normalise (raw_parse s)"

subsection \<open>JavaScript operations on values\<close>

text \<open>
  The three exceptions that can arise in the embedded functions.  The wording of
  \<open>e.message\<close> depends on the engine; \<open>error_message\<close> stands for it with the name of the
  error.

  \<open>get_prop v k\<close> is the property read \<open>v.k\<close> for the names the script reads
  (\<open>labels\<close>, \<open>title\<close>, \<open>url\<close>, \<open>label\<close>, \<open>documents\<close>), none of which is inherited from a
  prototype: it throws on \<open>null\<close>, and \<open>None\<close> is \<open>undefined\<close>.  \<open>js_or x d\<close> is
  \<open>x || d\<close>.  \<open>js_to_string\<close> is the conversion to a string that a template literal,
  \<open>String.prototype.includes\<close>, a computed property key, the operator \<open>+\<close> with a
  string and the assignment to \<open>textContent\<close> or \<open>href\<close> apply to a value; an object
  with an own property \<open>toString\<close> (which cannot be a function in a parsed value) has no
  primitive value, and the conversion throws.
  \<open>js_includes recv arg\<close> is \<open>recv.includes(arg)\<close>: on an array it compares by value
  for primitive arguments and is false for an array or object argument, which is never
  identical to an element of a freshly parsed array; on a string it tests for a substring;
  on anything else \<open>includes\<close> is not a function.
\<close>

datatype js_error = SyntaxError | TypeError | QuotaExceededError

definition error_message :: "js_error \<Rightarrow> string" where
  "error_message e =
     (case e of SyntaxError \<Rightarrow> ''SyntaxError''
      | TypeError \<Rightarrow> ''TypeError''
      | QuotaExceededError \<Rightarrow> ''QuotaExceededError'')"

fun truthy :: "json \<Rightarrow> bool" where
  "truthy JNull = False"
| "truthy (JBool b) = b"
| "truthy (JNum n) = (n \<noteq> 0)"
| "truthy (JStr s) = (s \<noteq> [])"
| "truthy (JArr xs) = True"
| "truthy (JObj kvs) = True"

fun get_prop :: "json \<Rightarrow> string \<Rightarrow> js_error + json option" where
  "get_prop JNull k = Inl TypeError"
| "get_prop (JObj kvs) k = Inr (map_of kvs k)"
| "get_prop v k = Inr None"

definition js_or :: "json option \<Rightarrow> json \<Rightarrow> json" where
  "js_or x d = (case x of None \<Rightarrow> d | Some v \<Rightarrow> if truthy v then v else d)"

fun join_results :: "(js_error + string) list \<Rightarrow> js_error + string" where
  "join_results [] = Inr []"
| "join_results [r] = r"
| "join_results (r # rs) =
     (case r of
        Inl e \<Rightarrow> Inl e
      | Inr s \<Rightarrow> (case join_results rs of Inl e \<Rightarrow> Inl e | Inr t \<Rightarrow> Inr (s @ CHR '','' # t)))"

fun js_to_string :: "json \<Rightarrow> js_error + string" where
  "js_to_string JNull = Inr ''null''"
| "js_to_string (JBool b) = Inr (if b then ''true'' else ''false'')"
| "js_to_string (JNum n) = Inr (show_int n)"
| "js_to_string (JStr s) = Inr s"
| "js_to_string (JArr xs) =
     join_results (map (\<lambda>x. if x = JNull then Inr [] else js_to_string x) xs)"
| "js_to_string (JObj kvs) =
     (if ''toString'' \<in> fst ` set kvs then Inl TypeError else Inr ''[object Object]'')"

fun is_substring :: "string \<Rightarrow> string \<Rightarrow> bool" where
  "is_substring t [] = (t = [])"
| "is_substring t (c # cs) = (take (length t) (c # cs) = t \<or> is_substring t cs)"

definition js_includes :: "json \<Rightarrow> json option \<Rightarrow> js_error + bool" where
  "js_includes recv arg =
     (case recv of
        JArr xs \<Rightarrow>
          Inr (case arg of
                 None \<Rightarrow> False
               | Some (JArr ys) \<Rightarrow> False
               | Some (JObj kvs) \<Rightarrow> False
               | Some v \<Rightarrow> v \<in> set xs)
      | JStr s \<Rightarrow>
          (case (case arg of None \<Rightarrow> Inr ''undefined'' | Some v \<Rightarrow> js_to_string v) of
             Inl e \<Rightarrow> Inl e
           | Inr t \<Rightarrow> Inr (is_substring t s))
      | _ \<Rightarrow> Inl TypeError)"

text \<open>
  \<open>xs.splice(i, 1)\<close> and \<open>xs.splice(i, 0, x)\<close>.  \<open>splice\<close> never throws: a negative start
  counts from the end, and the start is clamped to \<open>[0, length]\<close>.
\<close>

definition splice_start :: "int \<Rightarrow> nat \<Rightarrow> nat" where
  "splice_start i len = (if i < 0 then nat (max (int len + i) 0) else nat (min i (int len)))"

definition splice_remove :: "int \<Rightarrow> 'a list \<Rightarrow> 'a list" where
  "splice_remove i xs =
     (let s = splice_start i (length xs) in take s xs @ drop (Suc s) xs)"

definition splice_insert :: "int \<Rightarrow> 'a \<Rightarrow> 'a list \<Rightarrow> 'a list" where
  "splice_insert i x xs =
     (let s = splice_start i (length xs) in take s xs @ x # drop s xs)"

subsection \<open>The substrate\<close>

text \<open>
  \<open>localStorage\<close>: the stored pairs in the order in which \<open>localStorage.key\<close> enumerates
  them, and the room the browser grants, counted in characters of keys and values.
  \<open>setItem\<close> throws \<open>QuotaExceededError\<close> when the new contents would not fit;
  reading (\<open>getItem\<close>, \<open>key\<close>, \<open>length\<close>) does not throw.
\<close>

record storage =
  items :: "(string \<times> string) list"
  quota :: nat

definition getItem :: "storage \<Rightarrow> string \<Rightarrow> string option" where
  "getItem sto k = map_of (items sto) k"

definition storage_size :: "(string \<times> string) list \<Rightarrow> nat" where
  "storage_size kvs = sum_list (map (\<lambda>kv. length (fst kv) + length (snd kv)) kvs)"

definition setItem :: "storage \<Rightarrow> string \<Rightarrow> string \<Rightarrow> js_error + storage" where
  "setItem sto k v =
     (let items' = AList.update k v (items sto) in
      if quota sto < storage_size items' then Inl QuotaExceededError
      else Inr (sto\<lparr>items := items'\<rparr>))"

subsection \<open>The globals of the script\<close>

text \<open>
  The working list \<open>labels\<close> is an array whose elements may be \<open>undefined\<close> (\<open>None\<close>: the
  drop listener can insert it), or, after loading a stored object whose \<open>labels\<close> property
  is not an array, that other value.  \<open>labels_json\<close> is the value \<open>JSON.stringify\<close> sees,
  where \<open>undefined\<close> in an array is written as \<open>null\<close>.

  \<open>pageTitle\<close> and \<open>href\<close> are what \<open>getDocumentTitle()\<close> and \<open>window.location.href\<close>
  return.  \<open>labelsListContainer\<close> and \<open>noLabelsMessage\<close> say whether the two elements of
  the side bar have been created (the globals are \<open>null\<close> before).  \<open>expandedLabels\<close>
  lists the own properties of the object of that name, which the click on a row's arrow
  sets to \<open>true\<close> or \<open>false\<close>.  The rows themselves are not part of the state;
  \<open>displayUpdates\<close> counts the calls of \<open>updateLabelsDisplay\<close>.
\<close>

datatype labels_val = LArr "json option list" | LOther json

fun labels_json :: "labels_val \<Rightarrow> json" where
  "labels_json (LArr xs) = JArr (map (\<lambda>x. case x of None \<Rightarrow> JNull | Some v \<Rightarrow> v) xs)"
| "labels_json (LOther v) = v"

fun labels_of_json :: "json \<Rightarrow> labels_val" where
  "labels_of_json (JArr xs) = LArr (map Some xs)"
| "labels_of_json v = LOther v"

record state =
  labels :: labels_val
  draggedIndex :: "int option"
  documentId :: "string option"
  lastKnownLabelsJson :: string
  localStorage :: storage
  pageTitle :: string
  href :: string
  labelsListContainer :: bool
  noLabelsMessage :: bool
  expandedLabels :: "(string \<times> bool) list"
  displayUpdates :: nat

text \<open>
  \<open>truthy_str\<close> is the test \<open>if (documentId)\<close> on a value that is \<open>null\<close> or a string.
  \<open>getDocumentIdFromUrl\<close> is the first match of \<open>/\/document\/d\/([a-zA-Z0-9_-]+)/\<close>: the
  leftmost position where \<open>/document/d/\<close> is followed by at least one id character, and
  the longest run of id characters there.  \<open>getStorageKey docId gdoc\<close> is
  \<open>'gd-labels-' + (docId || documentId)\<close> with the global passed as \<open>gdoc\<close>.
\<close>

definition truthy_str :: "string option \<Rightarrow> bool" where
  "truthy_str s = (case s of None \<Rightarrow> False | Some t \<Rightarrow> t \<noteq> [])"

definition is_id_char :: "char \<Rightarrow> bool" where
  "is_id_char c =
     (let n = (of_char c :: nat) in
      (97 \<le> n \<and> n \<le> 122) \<or> (65 \<le> n \<and> n \<le> 90) \<or> (48 \<le> n \<and> n \<le> 57)
      \<or> c = CHR ''_'' \<or> c = CHR ''-'')"

fun getDocumentIdFromUrl :: "string \<Rightarrow> string option" where
  "getDocumentIdFromUrl [] = None"
| "getDocumentIdFromUrl (c # cs) =
     (if take 12 (c # cs) = ''/document/d/'' \<and> takeWhile is_id_char (drop 11 cs) \<noteq> []
      then Some (takeWhile is_id_char (drop 11 cs))
      else getDocumentIdFromUrl cs)"

definition getStorageKey :: "string option \<Rightarrow> string option \<Rightarrow> string" where
  "getStorageKey docId gdoc =
     ''gd-labels-'' @
       (case (if truthy_str docId then docId else gdoc) of None \<Rightarrow> ''null'' | Some d \<Rightarrow> d)"

subsection \<open>\<open>saveLabels\<close> and \<open>loadLabels\<close>\<close>

text \<open>
  \<open>encode\<close> is the text \<open>saveLabels\<close> stores: \<open>JSON.stringify\<close> of the object with the
  properties \<open>labels\<close>, \<open>title\<close>, \<open>url\<close>.  A failing write is caught and logged, and the
  last-known snapshot is then left as it was.
\<close>

definition encode :: "labels_val \<Rightarrow> string \<Rightarrow> string \<Rightarrow> string" where
  "encode ls t u =
     JSON_stringify (JObj [(''labels'', labels_json ls), (''title'', JStr t), (''url'', JStr u)])"

definition saveLabels :: "state \<Rightarrow> state" where
  "saveLabels st =
     (if \<not> truthy_str (documentId st) then st
      else
        (case setItem (localStorage st) (getStorageKey None (documentId st))
                (encode (labels st) (pageTitle st) (href st)) of
           Inl e \<Rightarrow> st
         | Inr sto \<Rightarrow>
             st\<lparr>localStorage := sto,
                lastKnownLabelsJson := JSON_stringify (labels_json (labels st))\<rparr>))"

text \<open>
  \<open>read_labels\<close> is the step that \<open>loadLabels\<close> and \<open>checkAndReloadLabels\<close> share: the
  parsed value itself when it is an array, its \<open>labels\<close> property or \<open>[]\<close> otherwise.  An
  absent or empty stored string is skipped by \<open>if (saved)\<close>.
\<close>

definition read_labels :: "json \<Rightarrow> js_error + json" where
  "read_labels data =
     (case data of
        JArr xs \<Rightarrow> Inr data
      | _ \<Rightarrow> (case get_prop data ''labels'' of
                Inl e \<Rightarrow> Inl e
              | Inr p \<Rightarrow> Inr (js_or p (JArr []))))"

definition loadLabels :: "state \<Rightarrow> state" where
  "loadLabels st =
     (if \<not> truthy_str (documentId st) then st
      else
        (case (case getItem (localStorage st) (getStorageKey None (documentId st)) of
                 None \<Rightarrow> Inr (labels st)
               | Some saved \<Rightarrow>
                   if saved = [] then Inr (labels st)
                   else (case JSON_parse saved of
                           None \<Rightarrow> Inl SyntaxError
                         | Some data \<Rightarrow>
                             (case read_labels data of
                                Inl e \<Rightarrow> Inl e
                              | Inr l \<Rightarrow> Inr (labels_of_json l)))) of
           Inl e \<Rightarrow> st\<lparr>labels := LArr [], lastKnownLabelsJson := ''[]''\<rparr>
         | Inr l \<Rightarrow> st\<lparr>labels := l, lastKnownLabelsJson := JSON_stringify (labels_json l)\<rparr>))"

subsection \<open>\<open>findDocumentsWithLabel\<close>\<close>

text \<open>
  \<open>decode_entry\<close> is the decoding of one stored value inside the scan, \<open>scan_entry\<close> the
  body of its \<open>try\<close> block, and \<open>scan\<close> the loop over the keys; an entry that throws is
  skipped.  The label searched for may be \<open>undefined\<close>.
\<close>

record doc_entry =
  doc_id :: string
  doc_title :: json
  doc_url :: json
  isCurrent :: bool

definition decode_entry :: "string \<Rightarrow> json \<Rightarrow> js_error + (json \<times> json \<times> json)" where
  "decode_entry docId data =
     (let docUrl = JStr (''https://docs.google.com/document/d/'' @ docId @ ''/edit'') in
      case data of
        JArr xs \<Rightarrow> Inr (data, JStr ''Untitled'', docUrl)
      | _ \<Rightarrow>
          (case get_prop data ''labels'' of
             Inl e \<Rightarrow> Inl e
           | Inr l \<Rightarrow>
               (case get_prop data ''title'' of
                  Inl e \<Rightarrow> Inl e
                | Inr t \<Rightarrow>
                    (case get_prop data ''url'' of
                       Inl e \<Rightarrow> Inl e
                     | Inr u \<Rightarrow>
                         Inr (js_or l (JArr []), js_or t (JStr ''Untitled''), js_or u docUrl)))))"

definition scan_entry :: "json option \<Rightarrow> string option \<Rightarrow> storage \<Rightarrow> string \<Rightarrow> js_error + doc_entry option" where
  "scan_entry labelName currentDocId sto key =
     (let docId = drop 10 key in
      case (case getItem sto key of None \<Rightarrow> Some JNull | Some saved \<Rightarrow> JSON_parse saved) of
        None \<Rightarrow> Inl SyntaxError
      | Some data \<Rightarrow>
          (case decode_entry docId data of
             Inl e \<Rightarrow> Inl e
           | Inr (docLabels, docTitle, docUrl) \<Rightarrow>
               (case js_includes docLabels labelName of
                  Inl e \<Rightarrow> Inl e
                | Inr b \<Rightarrow>
                    if b then Inr (Some \<lparr>doc_id = docId, doc_title = docTitle, doc_url = docUrl,
                                        isCurrent = (currentDocId = Some docId)\<rparr>)
                    else Inr None)))"

fun scan :: "json option \<Rightarrow> string option \<Rightarrow> storage \<Rightarrow> string list \<Rightarrow> doc_entry list" where
  "scan labelName currentDocId sto [] = []"
| "scan labelName currentDocId sto (key # keys) =
     (if key \<noteq> [] \<and> take 10 key = ''gd-labels-''
      then (case scan_entry labelName currentDocId sto key of
              Inr (Some d) \<Rightarrow> d # scan labelName currentDocId sto keys
            | _ \<Rightarrow> scan labelName currentDocId sto keys)
      else scan labelName currentDocId sto keys)"

definition findDocumentsWithLabel :: "json option \<Rightarrow> state \<Rightarrow> doc_entry list \<times> state" where
  "findDocumentsWithLabel labelName st =
     (scan labelName (documentId st) (localStorage st) (map fst (items (localStorage st))), st)"

subsection \<open>\<open>updateLabelsDisplay\<close> and \<open>populateDocumentList\<close>\<close>

text \<open>
  \<open>updateLabelsDisplay\<close> rebuilds the rows of the side bar from \<open>labels\<close>.  It changes
  the page only, so the embedding records that it was called and which exception, if any,
  leaves it.  It returns at once while the side bar does not exist.  Otherwise it reads
  \<open>labels.length\<close> and, unless that is \<open>0\<close>, calls \<open>labels.forEach\<close>, which is not a
  function when \<open>labels\<close> is not an array.  \<open>display_row\<close> is the callback of
  \<open>forEach\<close>: \<open>expandedLabels[label]\<close> converts the label to a property key
  (\<open>to_property_key\<close>), and for an expanded label \<open>populateDocumentList\<close> scans the
  substrate and writes each document found into the page, converting its title (with
  \<open>+ ' (current)'\<close> or through \<open>textContent\<close>) and, for another document than the
  current one, first its url (through \<open>href\<close>) to strings.  \<open>conversion_error\<close> is the
  exception of such a conversion, and \<open>first_error\<close> the exception that ends a loop.

  \<open>is_expanded own key\<close> is the truth value of \<open>expandedLabels[key]\<close>: the own property
  when there is one, and otherwise the property inherited from \<open>Object.prototype\<close>, which
  is a function (and for \<open>__proto__\<close> the prototype itself, which an assignment of a
  boolean does not replace).
\<close>

definition object_prototype_names :: "string list" where
  "object_prototype_names =
     [''constructor'', ''hasOwnProperty'', ''isPrototypeOf'', ''propertyIsEnumerable'',
      ''toLocaleString'', ''toString'', ''valueOf'', ''__proto__'',
      ''__defineGetter__'', ''__defineSetter__'', ''__lookupGetter__'', ''__lookupSetter__'']"

definition is_expanded :: "(string \<times> bool) list \<Rightarrow> string \<Rightarrow> bool" where
  "is_expanded own key =
     (if key = ''__proto__'' then True
      else (case map_of own key of
              Some b \<Rightarrow> b
            | None \<Rightarrow> key \<in> set object_prototype_names))"

definition to_property_key :: "json option \<Rightarrow> js_error + string" where
  "to_property_key label = (case label of None \<Rightarrow> Inr ''undefined'' | Some v \<Rightarrow> js_to_string v)"

definition conversion_error :: "json \<Rightarrow> js_error option" where
  "conversion_error v = (case js_to_string v of Inl e \<Rightarrow> Some e | Inr s \<Rightarrow> None)"

fun first_error :: "js_error option list \<Rightarrow> js_error option" where
  "first_error [] = None"
| "first_error (None # rs) = first_error rs"
| "first_error (Some e # rs) = Some e"

definition populateDocumentList :: "json option \<Rightarrow> state \<Rightarrow> js_error option" where
  "populateDocumentList labelName st =
     first_error
       (map (\<lambda>doc. if isCurrent doc then conversion_error (doc_title doc)
                   else (case conversion_error (doc_url doc) of
                           Some e \<Rightarrow> Some e
                         | None \<Rightarrow> conversion_error (doc_title doc)))
            (fst (findDocumentsWithLabel labelName st)))"

definition display_row :: "state \<Rightarrow> json option \<Rightarrow> js_error option" where
  "display_row st label =
     (case to_property_key label of
        Inl e \<Rightarrow> Some e
      | Inr key \<Rightarrow>
          if is_expanded (expandedLabels st) key then populateDocumentList label st else None)"

definition updateLabelsDisplay :: "state \<Rightarrow> js_error option \<times> state" where
  "updateLabelsDisplay st =
     (let st' = st\<lparr>displayUpdates := Suc (displayUpdates st)\<rparr> in
      if \<not> labelsListContainer st \<or> \<not> noLabelsMessage st then (None, st')
      else
        (case labels st of
           LArr xs \<Rightarrow> (first_error (map (display_row st) xs), st')
         | LOther v \<Rightarrow>
             (if (case v of
                    JStr s \<Rightarrow> s = []
                  | JObj kvs \<Rightarrow> map_of kvs ''length'' = Some (JNum 0)
                  | _ \<Rightarrow> False)
              then None else Some TypeError, st')))"

subsection \<open>\<open>checkAndReloadLabels\<close>\<close>

text \<open>
  \<open>reread_labels\<close> is the part of the \<open>try\<close> block of \<open>checkAndReloadLabels\<close> that
  comes before the comparison.  The call of \<open>updateLabelsDisplay\<close> is inside the same
  \<open>try\<close>: an exception of the redraw is caught and logged after the labels and the
  snapshot have been replaced.
\<close>

definition reread_labels :: "state \<Rightarrow> js_error + json" where
  "reread_labels st =
     (case getItem (localStorage st) (getStorageKey None (documentId st)) of
        None \<Rightarrow> Inr (JArr [])
      | Some saved \<Rightarrow>
          if saved = [] then Inr (JArr [])
          else (case JSON_parse saved of
                  None \<Rightarrow> Inl SyntaxError
                | Some data \<Rightarrow> read_labels data))"

definition checkAndReloadLabels :: "state \<Rightarrow> state" where
  "checkAndReloadLabels st =
     (if \<not> truthy_str (documentId st) then st
      else
        (case reread_labels st of
           Inl e \<Rightarrow> st
         | Inr currentLabels \<Rightarrow>
             (let currentJson = JSON_stringify currentLabels in
              if currentJson \<noteq> lastKnownLabelsJson st
              then snd (updateLabelsDisplay
                          (st\<lparr>labels := labels_of_json currentLabels,
                             lastKnownLabelsJson := currentJson\<rparr>))
              else st)))"

subsection \<open>\<open>importLabel\<close>\<close>

text \<open>
  The callback of \<open>forEach\<close> is \<open>import_doc\<close>.  \<open>existing_data\<close> is the value of
  \<open>existingData\<close> after the inner \<open>try\<close> block, which catches every exception of the read:
  for a stored \<open>null\<close>, number, string or boolean the assignment \<open>existingData = data\<close>
  has already happened when the next statement throws.  \<open>merge_label\<close> is the rest of the
  callback, which is not inside that \<open>try\<close>.  The flag returned says whether
  \<open>importedCount\<close> was incremented.  \<open>import_docs\<close> is the loop; an exception of the
  callback ends it and reaches the outer \<open>catch\<close> with the writes made so far.  So does an
  exception of the redraw after the loop.
\<close>

definition existing_data :: "(string \<times> json) list \<Rightarrow> string option \<Rightarrow> json" where
  "existing_data dflt saved =
     (case saved of
        None \<Rightarrow> JObj dflt
      | Some s \<Rightarrow>
          if s = [] then JObj dflt
          else (case JSON_parse s of
                  None \<Rightarrow> JObj dflt
                | Some data \<Rightarrow>
                    (case data of
                       JArr xs \<Rightarrow> JObj (obj_define dflt ''labels'' data)
                     | JObj kvs \<Rightarrow>
                         JObj (obj_define kvs ''labels'' (js_or (map_of kvs ''labels'') (JArr [])))
                     | _ \<Rightarrow> data)))"

definition merge_label :: "string \<Rightarrow> json \<Rightarrow> json \<Rightarrow> storage \<Rightarrow> js_error + (bool \<times> storage)" where
  "merge_label storageKey existingData labelName sto =
     (case existingData of
        JObj kvs \<Rightarrow>
          (case map_of kvs ''labels'' of
             None \<Rightarrow> Inl TypeError
           | Some l \<Rightarrow>
               (case js_includes l (Some labelName) of
                  Inl e \<Rightarrow> Inl e
                | Inr b \<Rightarrow>
                    if b then Inr (False, sto)
                    else
                      (case l of
                         JArr xs \<Rightarrow>
                           (case setItem sto storageKey
                                   (JSON_stringify
                                      (JObj (obj_define kvs ''labels'' (JArr (xs @ [labelName]))))) of
                              Inl e \<Rightarrow> Inl e
                            | Inr sto' \<Rightarrow> Inr (True, sto'))
                       | _ \<Rightarrow> Inl TypeError)))
      | _ \<Rightarrow> Inl TypeError)"

definition import_doc :: "string option \<Rightarrow> json \<Rightarrow> json \<Rightarrow> storage \<Rightarrow> js_error + (bool \<times> storage)" where
  "import_doc gdoc labelName doc sto =
     (case get_prop doc ''url'' of
        Inl e \<Rightarrow> Inl e
      | Inr None \<Rightarrow> Inr (False, sto)
      | Inr (Some u) \<Rightarrow>
          if \<not> truthy u then Inr (False, sto)
          else
            (case u of
               JStr s \<Rightarrow>
                 (case getDocumentIdFromUrl s of
                    None \<Rightarrow> Inr (False, sto)
                  | Some docId \<Rightarrow>
                      (case get_prop doc ''title'' of
                         Inl e \<Rightarrow> Inl e
                       | Inr t \<Rightarrow>
                           (let storageKey = getStorageKey (Some docId) gdoc;
                                existingData =
                                  existing_data
                                    [(''labels'', JArr []),
                                     (''title'', js_or t (JStr ''Untitled'')),
                                     (''url'', u)]
                                    (getItem sto storageKey)
                            in merge_label storageKey existingData labelName sto)))
             | _ \<Rightarrow> Inl TypeError))"

fun import_docs :: "string option \<Rightarrow> json \<Rightarrow> json list \<Rightarrow> nat \<Rightarrow> storage \<Rightarrow> (js_error + nat) \<times> storage" where
  "import_docs gdoc labelName [] importedCount sto = (Inr importedCount, sto)"
| "import_docs gdoc labelName (doc # docs) importedCount sto =
     (case import_doc gdoc labelName doc sto of
        Inl e \<Rightarrow> (Inl e, sto)
      | Inr (b, sto') \<Rightarrow>
          import_docs gdoc labelName docs (if b then Suc importedCount else importedCount) sto')"

definition import_failed :: "js_error \<Rightarrow> json" where
  "import_failed e =
     JObj [(''success'', JBool False), (''message'', JStr (''Invalid JSON: '' @ error_message e))]"

definition invalid_format :: json where
  "invalid_format =
     JObj [(''success'', JBool False),
           (''message'', JStr ''Invalid JSON format. Expected { label, documents }'')]"

definition import_message :: "string \<Rightarrow> nat \<Rightarrow> string" where
  "import_message l n =
     ''Imported label '' @ [dquote] @ l @ [dquote] @ '' to '' @ show_int (int n) @ '' document(s).''"

definition importLabel :: "string \<Rightarrow> state \<Rightarrow> json \<times> state" where
  "importLabel jsonString st =
     (case JSON_parse jsonString of
        None \<Rightarrow> (import_failed SyntaxError, st)
      | Some importData \<Rightarrow>
          (case get_prop importData ''label'' of
             Inl e \<Rightarrow> (import_failed e, st)
           | Inr None \<Rightarrow> (invalid_format, st)
           | Inr (Some labelName) \<Rightarrow>
               if \<not> truthy labelName then (invalid_format, st)
               else
                 (case get_prop importData ''documents'' of
                    Inr (Some (JArr docs)) \<Rightarrow>
                      (case import_docs (documentId st) labelName docs 0 (localStorage st) of
                         (Inl e, sto) \<Rightarrow> (import_failed e, st\<lparr>localStorage := sto\<rparr>)
                       | (Inr importedCount, sto) \<Rightarrow>
                           (case updateLabelsDisplay (loadLabels (st\<lparr>localStorage := sto\<rparr>)) of
                              (Some e, st') \<Rightarrow> (import_failed e, st')
                            | (None, st') \<Rightarrow>
                                (case js_to_string labelName of
                                   Inl e \<Rightarrow> (import_failed e, st')
                                 | Inr l \<Rightarrow>
                                     (JObj [(''success'', JBool True),
                                            (''message'', JStr (import_message l importedCount))],
                                      st'))))
                  | _ \<Rightarrow> (invalid_format, st))))"

subsection \<open>\<open>removeLabel\<close> and the drop listener\<close>

text \<open>
  Both throw \<open>TypeError\<close> when \<open>labels\<close> is not an array, before anything is changed.
  On an array they change \<open>labels\<close>, call \<open>saveLabels\<close> and end with
  \<open>updateLabelsDisplay\<close>, whose exception is theirs: nothing catches it.
  \<open>drop_handler targetIndex\<close> is the \<open>drop\<close> listener of the row \<open>targetIndex\<close>; reading
  \<open>labels[draggedIndex]\<close> outside the array gives \<open>undefined\<close>.
\<close>

definition removeLabel :: "int \<Rightarrow> state \<Rightarrow> js_error option \<times> state" where
  "removeLabel index st =
     (case labels st of
        LArr xs \<Rightarrow> updateLabelsDisplay (saveLabels (st\<lparr>labels := LArr (splice_remove index xs)\<rparr>))
      | LOther v \<Rightarrow> (Some TypeError, st))"

definition drop_handler :: "int \<Rightarrow> state \<Rightarrow> js_error option \<times> state" where
  "drop_handler targetIndex st =
     (case draggedIndex st of
        None \<Rightarrow> (None, st)
      | Some d \<Rightarrow>
          if targetIndex = d then (None, st)
          else
            (case labels st of
               LArr xs \<Rightarrow>
                 (let draggedLabel = (if 0 \<le> d \<and> d < int (length xs) then xs ! nat d else None);
                      xs' = splice_insert targetIndex draggedLabel (splice_remove d xs)
                  in updateLabelsDisplay (saveLabels (st\<lparr>labels := LArr xs'\<rparr>)))
             | LOther v \<Rightarrow> (Some TypeError, st)))"

subsection \<open>Notions used in the proofs\<close>

text \<open>
  \<open>tokens_of v\<close> is the token sequence of \<open>JSON_stringify v\<close>, and \<open>sep r\<close> says that the
  text \<open>r\<close> does not continue a number.  \<open>printable v\<close> says that \<open>v\<close> has a string
  conversion; \<open>plain_labels xs\<close> that every label of \<open>xs\<close> has one (every string, number,
  boolean, \<open>null\<close> and \<open>undefined\<close> has), and \<open>plain_records sto\<close> that the title and
  the url of every record stored under a key of the script have one.
  \<open>carries l sto key\<close> says that the value stored
  under \<open>key\<close> already has the label \<open>l\<close> in the sense of the import: it parses, and
  \<open>includes\<close> finds \<open>l\<close> in its labels.  \<open>doc_target\<close> is the storage key and the default
  record of a payload entry that the import processes, and \<open>import_flags\<close> lists, entry by
  entry, whether the import appended the label.
\<close>

fun intercal :: "'a \<Rightarrow> 'a list list \<Rightarrow> 'a list" where
  "intercal s [] = []"
| "intercal s [x] = x"
| "intercal s (x # y # ys) = x @ s # intercal s (y # ys)"

fun tokens_of :: "json \<Rightarrow> token list" where
  "tokens_of JNull = [TNull]"
| "tokens_of (JBool b) = [if b then TTrue else TFalse]"
| "tokens_of (JNum n) = [TNum n]"
| "tokens_of (JStr s) = [TStr s]"
| "tokens_of (JArr xs) = LBrack # intercal Comma (map tokens_of xs) @ [RBrack]"
| "tokens_of (JObj kvs) =
     LBrace # intercal Comma (map (\<lambda>kv. TStr (fst kv) # Colon # tokens_of (snd kv)) kvs) @ [RBrace]"

definition sep :: "string \<Rightarrow> bool" where
  "sep r = (case r of [] \<Rightarrow> True
            | d # _ \<Rightarrow> \<not> is_digit d \<and> d \<noteq> CHR ''.'' \<and> d \<noteq> CHR ''e'' \<and> d \<noteq> CHR ''E'')"

definition app_toks :: "token list \<Rightarrow> token list option \<Rightarrow> token list option" where
  "app_toks ts r = map_option ((@) ts) r"

definition printable :: "json \<Rightarrow> bool" where
  "printable v = (case js_to_string v of Inl e \<Rightarrow> False | Inr s \<Rightarrow> True)"

definition plain_labels :: "json option list \<Rightarrow> bool" where
  "plain_labels xs = (\<forall>x \<in> set xs. case x of None \<Rightarrow> True | Some v \<Rightarrow> printable v)"

definition plain_records :: "storage \<Rightarrow> bool" where
  "plain_records sto =
     (\<forall>kv \<in> set (items sto).
        take 10 (fst kv) = ''gd-labels-'' \<longrightarrow>
        (case JSON_parse (snd kv) of
           Some (JObj kvs) \<Rightarrow>
             (case map_of kvs ''title'' of None \<Rightarrow> True | Some v \<Rightarrow> printable v)
             \<and> (case map_of kvs ''url'' of None \<Rightarrow> True | Some v \<Rightarrow> printable v)
         | _ \<Rightarrow> True))"





fun import_flags :: "string option \<Rightarrow> json \<Rightarrow> json list \<Rightarrow> storage \<Rightarrow> bool list" where
  "import_flags gdoc labelName [] sto = []"
| "import_flags gdoc labelName (doc # docs) sto =
     (case import_doc gdoc labelName doc sto of
        Inl e \<Rightarrow> []
      | Inr (b, sto') \<Rightarrow> b # import_flags gdoc labelName docs sto')"

subsection \<open>Concrete states and payloads\<close>

definition example_state :: state where
  "example_state =
     \<lparr>labels = LArr [Some (JStr ''a''), Some (JStr ''b''), Some (JStr ''c'')],
      draggedIndex = Some 0,
      documentId = Some ''A'',
      lastKnownLabelsJson = [],
      localStorage = \<lparr>items = [], quota = 1000\<rparr>,
      pageTitle = ''T'',
      href = ''https://docs.google.com/document/d/A/edit'',
      labelsListContainer = True,
      noLabelsMessage = True,
      expandedLabels = [],
      displayUpdates = 0\<rparr>"

definition expanded_state :: state where
  \<open>expanded_state =
     example_state\<lparr>expandedLabels := [(''a'', True)],
       localStorage :=
         \<lparr>items = [(''gd-labels-B'',
                     ''{"labels":["a"],"title":"Other","url":"https://docs.google.com/document/d/B/edit"}'')],
          quota = 1000\<rparr>\<rparr>\<close>

definition untitled_state :: state where
  \<open>untitled_state =
     example_state\<lparr>localStorage :=
       \<lparr>items = [(''gd-labels-D'',
                   encode (LArr [Some (JStr ''x'')]) [] ''https://docs.google.com/document/d/D/edit'')],
        quota = 1000\<rparr>\<rparr>\<close>

definition saved_state :: state where
  \<open>saved_state =
     example_state\<lparr>labels := LArr [],
       localStorage :=
         \<lparr>items = [(''gd-labels-A'',
                     encode (LArr [Some (JStr ''a''), Some (JStr ''b'')]) ''T''
                       ''https://docs.google.com/document/d/A/edit'')],
          quota = 1000\<rparr>\<rparr>\<close>

definition broken_state :: state where
  "broken_state = example_state\<lparr>localStorage := \<lparr>items = [(''gd-labels-A'', ''{'')], quota = 1000\<rparr>\<rparr>"

definition synced_state :: state where
  \<open>synced_state =
     example_state\<lparr>labels := LArr [Some (JStr ''a''), Some (JStr ''b'')],
                   lastKnownLabelsJson := JSON_stringify (JArr [JStr ''a'', JStr ''b'']),
                   localStorage :=
                     \<lparr>items = [(''gd-labels-A'',
                                 ''{"labels":["a","b","c"],"title":"T","url":"https://docs.google.com/document/d/A/edit"}'')],
                      quota = 1000\<rparr>\<rparr>\<close>

definition legacy_state :: state where
  \<open>legacy_state =
     example_state\<lparr>localStorage := \<lparr>items = [(''gd-labels-A'', ''["x","y"]'')], quota = 1000\<rparr>\<rparr>\<close>

definition odd_label_state :: state where
  "odd_label_state =
     example_state\<lparr>labels := LArr [Some (JStr ''a''), Some (JObj [(''toString'', JNum 1)])]\<rparr>"

definition payload_empty :: string where
  \<open>payload_empty = ''{"label":"L","documents":[]}''\<close>

definition payload_one :: string where
  \<open>payload_one = ''{"label":"L","documents":[{"url":"https://docs.google.com/document/d/B/edit"}]}''\<close>

definition payload_two :: string where
  \<open>payload_two =
     ''{"label":"L","documents":[''
     @ ''{"title":"A title of thirty characters..","url":"https://docs.google.com/document/d/B/edit"},''
     @ ''{"url":"https://docs.google.com/document/d/C/edit"}]}''\<close>

definition payload_second :: string where
  \<open>payload_second = ''{"label":"L","documents":[{"url":"https://docs.google.com/document/d/C/edit"}]}''\<close>

definition nearly_full_state :: state where
  "nearly_full_state = example_state\<lparr>localStorage := \<lparr>items = [], quota = 100\<rparr>\<rparr>"

section \<open>Parsing a serialization gives the value back\<close>

lemma commas_intercal: "commas xs = intercal (CHR '','') xs"
  by (induction xs rule: commas.induct) auto

lemma hex_val_hex_char: "k < 16 \<Longrightarrow> hex_val (hex_char k) = Some k"
proof -
  assume "k < 16"
  then have "k = 0 \<or> k = 1 \<or> k = 2 \<or> k = 3 \<or> k = 4 \<or> k = 5 \<or> k = 6 \<or> k = 7
      \<or> k = 8 \<or> k = 9 \<or> k = 10 \<or> k = 11 \<or> k = 12 \<or> k = 13 \<or> k = 14 \<or> k = 15"
    by arith
  then show ?thesis
    by (elim disjE) (simp_all add: hex_val_def hex_char_def)
qed

lemma hex_val_zero: "hex_val (CHR ''0'') = Some 0"
  by (simp add: hex_val_def)

lemma lex_string_escape:
  "lex_string (escape_char c @ r) = cons_str c (lex_string r)"
proof -
  consider (special) "c \<in> {dquote, bslash, CHR 0x08, CHR 0x0C, CHR 0x0A, CHR 0x0D, CHR 0x09}"
    | (ctl) "c \<notin> {dquote, bslash, CHR 0x08, CHR 0x0C, CHR 0x0A, CHR 0x0D, CHR 0x09}" "(of_char c :: nat) < 32"
    | (plain) "c \<notin> {dquote, bslash, CHR 0x08, CHR 0x0C, CHR 0x0A, CHR 0x0D, CHR 0x09}" "\<not> (of_char c :: nat) < 32"
    by blast
  then show ?thesis
  proof cases
    case special
    then show ?thesis
      by (auto simp: escape_char_def unescape_def dquote_def bslash_def)
  next
    case ctl
    let ?n = "of_char c :: nat"
    have d: "?n div 16 < 16" "?n mod 16 < 16" using ctl(2) by auto
    have "hex4 (CHR ''0'') (CHR ''0'') (hex_char (?n div 16)) (hex_char (?n mod 16)) = Some ?n"
      by (simp add: hex4_def hex_val_zero hex_val_hex_char d)
    moreover have "?n < 256" using ctl(2) by simp
    moreover have "escape_char c = [bslash, CHR ''u'', CHR ''0'', CHR ''0'',
        hex_char (?n div 16), hex_char (?n mod 16)]"
      using ctl by (simp add: escape_char_def)
    ultimately show ?thesis
      by (simp add: dquote_def bslash_def)
  next
    case plain
    then show ?thesis
      by (simp add: escape_char_def)
  qed
qed

lemma lex_string_quote:
  "lex_string (concat (map escape_char s) @ dquote # r) = Some (s, r)"
  by (induction s) (simp_all add: lex_string_escape cons_str_def)

lemma is_digit_hex_char: "k < 10 \<Longrightarrow> is_digit (hex_char k) \<and> digit_val (hex_char k) = int k"
proof -
  assume "k < 10"
  then have "k = 0 \<or> k = 1 \<or> k = 2 \<or> k = 3 \<or> k = 4 \<or> k = 5 \<or> k = 6 \<or> k = 7
      \<or> k = 8 \<or> k = 9"
    by arith
  then show ?thesis
    by (elim disjE) (simp_all add: is_digit_def digit_val_def hex_char_def)
qed

lemma hex_char_zero_iff: "k < 10 \<Longrightarrow> (hex_char k = CHR ''0'') = (k = 0)"
proof -
  assume "k < 10"
  then have "k = 0 \<or> k = 1 \<or> k = 2 \<or> k = 3 \<or> k = 4 \<or> k = 5 \<or> k = 6 \<or> k = 7
      \<or> k = 8 \<or> k = 9"
    by arith
  then show ?thesis
    by (elim disjE) (simp_all add: hex_char_def)
qed

lemma digits_val_snoc: "digits_val (xs @ [c]) = digits_val xs * 10 + digit_val c"
  by (simp add: digits_val_def)

lemma show_digits_props:
  "0 \<le> n \<Longrightarrow>
     show_digits n \<noteq> [] \<and> list_all is_digit (show_digits n)
     \<and> digits_val (show_digits n) = n
     \<and> (hd (show_digits n) = CHR ''0'') = (n = 0)"
proof (induction n rule: show_digits.induct)
  case (1 n)
  show ?case
  proof (cases "n < 10")
    case True
    with 1(2) have k: "nat n < 10" by simp
    have s: "show_digits n = [hex_char (nat n)]"
      using True by (simp add: show_digits.simps)
    show ?thesis
      using is_digit_hex_char [OF k] hex_char_zero_iff [OF k] 1(2)
      by (simp add: s digits_val_def)
  next
    case False
    then have pos: "0 \<le> n div 10" "n div 10 \<noteq> 0" by auto
    have k: "nat (n mod 10) < 10" by simp
    have s: "show_digits n = show_digits (n div 10) @ [hex_char (nat (n mod 10))]"
      using False by (subst show_digits.simps) simp
    from 1(1) [OF False pos(1)] have ih:
      "show_digits (n div 10) \<noteq> []" "list_all is_digit (show_digits (n div 10))"
      "digits_val (show_digits (n div 10)) = n div 10"
      "hd (show_digits (n div 10)) \<noteq> CHR ''0''"
      using pos(2) by auto
    show ?thesis
      using ih is_digit_hex_char [OF k] False
      by (simp add: s digits_val_snoc)
  qed
qed

lemma sep_takeWhile: "sep r \<Longrightarrow> takeWhile is_digit r = [] \<and> dropWhile is_digit r = r"
  by (cases r) (auto simp: sep_def)

lemma lex_digits_show:
  assumes "0 \<le> n" "sep r"
  shows "lex_digits (show_digits n @ r) = Some (n, r)"
proof -
  from show_digits_props [OF assms(1)] obtain c cs where
    s: "show_digits n = c # cs" and all: "list_all is_digit (c # cs)"
    and v: "digits_val (c # cs) = n" and z: "(c = CHR ''0'') = (n = 0)"
    by (cases "show_digits n") auto
  show ?thesis
  proof (cases "n = 0")
    case True
    then have "show_digits n = ''0''"
      by (simp add: show_digits.simps hex_char_def)
    then show ?thesis using True by (simp add: lex_digits_def is_digit_def)
  next
    case False
    have tw: "takeWhile is_digit ((c # cs) @ r) = c # cs"
      using all sep_takeWhile [OF assms(2)]
      by (subst takeWhile_append2) (auto simp: list_all_iff)
    have dw: "dropWhile is_digit ((c # cs) @ r) = r"
      using all sep_takeWhile [OF assms(2)]
      by (subst dropWhile_append2) (auto simp: list_all_iff)
    have "lex_digits ((c # cs) @ r) = Some (digits_val (c # cs), r)"
      unfolding lex_digits_def using all z False tw dw
      by (simp del: takeWhile.simps dropWhile.simps)
    then show ?thesis using s v by simp
  qed
qed

lemma sep_final:
  "sep r \<Longrightarrow> (case r of [] \<Rightarrow> Some (n, r)
      | d # _ \<Rightarrow> if d = CHR ''.'' \<or> d = CHR ''e'' \<or> d = CHR ''E'' then None else Some (n, r))
    = Some (n, r)"
  by (cases r) (auto simp: sep_def)

lemma show_int_head:
  "\<exists>c cs. show_int i = c # cs \<and> (c = CHR ''-'' \<or> is_digit c)
     \<and> (c = CHR ''-'') = (i < 0)"
proof (cases "i < 0")
  case True
  then show ?thesis by (simp add: show_int_def)
next
  case False
  then have "0 \<le> i" by simp
  from show_digits_props [OF this] obtain c cs where
    "show_digits i = c # cs" "is_digit c"
    by (cases "show_digits i") auto
  moreover from \<open>is_digit c\<close> have "c \<noteq> CHR ''-''" by (auto simp: is_digit_def)
  ultimately show ?thesis using False by (simp add: show_int_def)
qed

lemma lex_number_show:
  assumes "sep r"
  shows "lex_number (show_int i @ r) = Some (i, r)"
proof (cases "i < 0")
  case True
  then have "lex_digits (show_digits (- i) @ r) = Some (- i, r)"
    using lex_digits_show [of "- i" r] assms by simp
  then show ?thesis
    using True sep_final [OF assms] by (simp add: lex_number_def show_int_def)
next
  case False
  then have d: "lex_digits (show_digits i @ r) = Some (i, r)"
    using lex_digits_show [of i r] assms by simp
  from show_int_head [of i] False obtain c cs where
    s: "show_digits i = c # cs" "c \<noteq> CHR ''-''"
    by (auto simp: show_int_def)
  show ?thesis
    using False d s sep_final [OF assms] by (simp add: lex_number_def show_int_def)
qed

lemma lex_number_tok:
  assumes "sep r"
  shows "lex (show_int i @ r) = cons_tok (TNum i) (lex r)"
proof -
  from show_int_head [of i] obtain c cs where
    s: "show_int i = c # cs" and c: "c = CHR ''-'' \<or> is_digit c"
    by blast
  have n: "\<not> is_ws c" "c \<noteq> CHR ''{''" "c \<noteq> CHR ''}''" "c \<noteq> CHR ''[''" "c \<noteq> CHR '']''"
    "c \<noteq> CHR '':''" "c \<noteq> CHR '',''" "c \<noteq> dquote"
    using c by (auto simp: is_ws_def is_digit_def dquote_def)
  have "lex_number (c # cs @ r) = Some (i, r)"
    using lex_number_show [OF assms, of i] s by simp
  then show ?thesis
    using n c s by simp
qed

lemma lex_string_tok: "lex (quote s @ r) = cons_tok (TStr s) (lex r)"
  using lex_string_quote [of s r]
  by (simp add: quote_def dquote_def is_ws_def)

lemma lex_lits:
  "lex (''null'' @ r) = cons_tok TNull (lex r)"
  "lex (''true'' @ r) = cons_tok TTrue (lex r)"
  "lex (''false'' @ r) = cons_tok TFalse (lex r)"
  by (simp_all add: is_ws_def dquote_def is_digit_def)

lemma lex_punct:
  "lex (CHR ''{'' # r) = cons_tok LBrace (lex r)"
  "lex (CHR ''}'' # r) = cons_tok RBrace (lex r)"
  "lex (CHR ''['' # r) = cons_tok LBrack (lex r)"
  "lex (CHR '']'' # r) = cons_tok RBrack (lex r)"
  "lex (CHR '':'' # r) = cons_tok Colon (lex r)"
  "lex (CHR '','' # r) = cons_tok Comma (lex r)"
  by (simp_all add: is_ws_def)

lemma sep_punct: "sep (CHR '','' # r)" "sep (CHR '']'' # r)" "sep (CHR ''}'' # r)" "sep []"
  by (simp_all add: sep_def is_digit_def)

declare lex.simps [simp del]

lemma app_toks_simps:
  "app_toks [] r = r"
  "cons_tok t (app_toks ts r) = app_toks (t # ts) r"
  "cons_tok t r = app_toks [t] r"
  "app_toks a (app_toks b r) = app_toks (a @ b) r"
  by (cases r; simp add: app_toks_def cons_tok_def)+

lemma lex_intercal:
  assumes "\<And>x r. x \<in> set xs \<Longrightarrow> sep r \<Longrightarrow> lex (f x @ r) = app_toks (g x) (lex r)"
    and "sep r"
  shows "lex (intercal (CHR '','') (map f xs) @ r) = app_toks (intercal Comma (map g xs)) (lex r)"
  using assms
proof (induction xs rule: induct_list012)
  case 1
  then show ?case by (simp add: app_toks_simps(1))
next
  case (2 x)
  then show ?case by simp
next
  case (3 x y zs)
  have tl: "lex (intercal (CHR '','') (map f (y # zs)) @ r)
      = app_toks (intercal Comma (map g (y # zs))) (lex r)"
    using 3 by simp
  have "lex (f x @ CHR '','' # intercal (CHR '','') (map f (y # zs)) @ r)
      = app_toks (g x) (lex (CHR '','' # intercal (CHR '','') (map f (y # zs)) @ r))"
    using 3(3) [of x] by (simp add: sep_punct)
  also have "\<dots> = app_toks (g x) (app_toks [Comma] (lex (intercal (CHR '','') (map f (y # zs)) @ r)))"
    by (simp only: lex_punct app_toks_simps(3))
  finally show ?case
    using tl by (simp add: app_toks_simps(4))
qed

lemma lex_stringify:
  "sep r \<Longrightarrow> lex (JSON_stringify v @ r) = app_toks (tokens_of v) (lex r)"
proof (induction v arbitrary: r)
  case JNull
  show ?case using lex_lits(1) [of r] by (simp add: app_toks_simps(3))
next
  case (JBool b)
  show ?case using lex_lits(2,3) [of r] by (simp add: app_toks_simps(3))
next
  case (JNum n)
  then show ?case by (simp add: lex_number_tok app_toks_simps(3))
next
  case (JStr s)
  show ?case by (simp add: lex_string_tok app_toks_simps(3))
next
  case (JArr xs)
  have "lex (intercal (CHR '','') (map JSON_stringify xs) @ CHR '']'' # r)
      = app_toks (intercal Comma (map tokens_of xs)) (lex (CHR '']'' # r))"
    by (rule lex_intercal) (auto simp: JArr.IH sep_punct)
  then show ?case
    by (simp add: commas_intercal lex_punct app_toks_simps)
next
  case (JObj kvs)
  let ?f = "\<lambda>kv. quote (fst kv) @ CHR '':'' # JSON_stringify (snd kv)"
  let ?g = "\<lambda>kv. TStr (fst kv) # Colon # tokens_of (snd kv)"
  have "lex (intercal (CHR '','') (map ?f kvs) @ CHR ''}'' # r)
      = app_toks (intercal Comma (map ?g kvs)) (lex (CHR ''}'' # r))"
  proof (rule lex_intercal)
    fix kv :: "string \<times> json" and r'
    assume kv: "kv \<in> set kvs" and s: "sep r'"
    obtain k v where e: "kv = (k, v)" by (cases kv)
    have "lex (JSON_stringify v @ r') = app_toks (tokens_of v) (lex r')"
      using JObj.IH [of kv v r'] kv s e by simp
    then show "lex (?f kv @ r') = app_toks (?g kv) (lex r')"
      by (simp add: e lex_string_tok lex_punct app_toks_simps)
  qed (simp add: sep_punct)
  then show ?case
    by (simp add: commas_intercal lex_punct app_toks_simps)
qed

lemma tokens_of_head: "\<exists>t ts. tokens_of v = t # ts \<and> t \<noteq> RBrack \<and> value_start t \<noteq> None"
  by (cases v) auto

lemma pda_arr_start:
  "pda PArrStart stk (tokens_of v @ ts) = pda PValue (FArr [] # stk) (tokens_of v @ ts)"
proof -
  from tokens_of_head [of v] obtain t ts' where "tokens_of v = t # ts'" "t \<noteq> RBrack"
    by blast
  then show ?thesis by simp
qed

lemma pda_elems:
  assumes "\<And>x stk ts. x \<in> set xs \<Longrightarrow> pda PValue stk (tokens_of x @ ts) = pda (PDone x) stk ts"
    and "xs \<noteq> []"
  shows "pda PValue (FArr acc # stk) (intercal Comma (map tokens_of xs) @ RBrack # ts)
      = pda (PDone (JArr (rev acc @ xs))) stk ts"
  using assms
proof (induction xs arbitrary: acc rule: induct_list012)
  case 1
  then show ?case by simp
next
  case (2 x)
  then show ?case by simp
next
  case (3 x y zs)
  have "pda PValue (FArr (x # acc) # stk) (intercal Comma (map tokens_of (y # zs)) @ RBrack # ts)
      = pda (PDone (JArr (rev (x # acc) @ y # zs))) stk ts"
    by (rule 3(2)) (use 3(3) in auto)
  then show ?case
    using 3(3) [of x] by simp
qed

lemma pda_members:
  assumes "\<And>k v stk ts. (k, v) \<in> set kvs \<Longrightarrow> pda PValue stk (tokens_of v @ ts) = pda (PDone v) stk ts"
    and "kvs \<noteq> []"
  shows "pda (PKey acc) stk
           (intercal Comma (map (\<lambda>kv. TStr (fst kv) # Colon # tokens_of (snd kv)) kvs) @ RBrace # ts)
      = pda (PDone (JObj (rev acc @ kvs))) stk ts"
  using assms
proof (induction kvs arbitrary: acc rule: induct_list012)
  case 1
  then show ?case by simp
next
  case (2 kv)
  obtain k v where e: "kv = (k, v)" by (cases kv)
  show ?case using 2(1) [of k v] by (simp add: e)
next
  case (3 kv y zs)
  obtain k v where e: "kv = (k, v)" by (cases kv)
  let ?g = "\<lambda>kv. TStr (fst kv) # Colon # tokens_of (snd kv)"
  have "pda (PKey ((k, v) # acc)) stk (intercal Comma (map ?g (y # zs)) @ RBrace # ts)
      = pda (PDone (JObj (rev ((k, v) # acc) @ y # zs))) stk ts"
    by (rule 3(2)) (use 3(3) in auto)
  then show ?case
    using 3(3) [of k v] by (simp add: e)
qed

lemma pda_obj_start:
  "kvs \<noteq> [] \<Longrightarrow>
   pda PObjStart stk (intercal Comma (map (\<lambda>kv. TStr (fst kv) # Colon # tokens_of (snd kv)) kvs) @ ts)
     = pda (PKey []) stk (intercal Comma (map (\<lambda>kv. TStr (fst kv) # Colon # tokens_of (snd kv)) kvs) @ ts)"
  by (induction kvs rule: induct_list012) simp_all

lemma pda_tokens_of:
  "pda PValue stk (tokens_of v @ ts) = pda (PDone v) stk ts"
proof (induction v arbitrary: stk ts)
  case (JArr xs)
  show ?case
  proof (cases "xs = []")
    case True
    then show ?thesis by simp
  next
    case False
    then obtain x xs' where c: "xs = x # xs'" by (cases xs) auto
    have hd: "pda PArrStart stk (intercal Comma (map tokens_of xs) @ RBrack # ts)
        = pda PValue (FArr [] # stk) (intercal Comma (map tokens_of xs) @ RBrack # ts)"
    proof (cases xs')
      case Nil
      then show ?thesis using pda_arr_start [of stk x "RBrack # ts"] c by simp
    next
      case (Cons y ys)
      then show ?thesis
        using pda_arr_start [of stk x "Comma # intercal Comma (map tokens_of (y # ys)) @ RBrack # ts"] c
        by simp
    qed
    have "pda PValue (FArr [] # stk) (intercal Comma (map tokens_of xs) @ RBrack # ts)
        = pda (PDone (JArr (rev [] @ xs))) stk ts"
      by (rule pda_elems) (auto simp: JArr.IH False)
    then show ?thesis using hd by simp
  qed
next
  case (JObj kvs)
  let ?g = "\<lambda>kv. TStr (fst kv) # Colon # tokens_of (snd kv)"
  show ?case
  proof (cases "kvs = []")
    case True
    then show ?thesis by simp
  next
    case False
    have "pda (PKey []) stk (intercal Comma (map ?g kvs) @ RBrace # ts)
        = pda (PDone (JObj (rev [] @ kvs))) stk ts"
    proof (rule pda_members)
      fix k v stk' ts'
      assume "(k, v) \<in> set kvs"
      then show "pda PValue stk' (tokens_of v @ ts') = pda (PDone v) stk' ts'"
        using JObj.IH [of "(k, v)" v] by simp
    qed (rule False)
    then show ?thesis
      using pda_obj_start [OF False, of stk "RBrace # ts"] by simp
  qed
qed simp_all

lemma raw_parse_stringify: "raw_parse (JSON_stringify v) = Some v"
proof -
  have "lex (JSON_stringify v @ []) = app_toks (tokens_of v) (lex [])"
    by (rule lex_stringify) (rule sep_punct)
  then have "lex (JSON_stringify v) = Some (tokens_of v)"
    by (simp add: app_toks_def lex.simps(1))
  then show ?thesis
    using pda_tokens_of [of "[]" v "[]"] by (simp add: raw_parse_def)
qed

lemma JSON_stringify_inj:
  assumes "JSON_stringify v = JSON_stringify w"
  shows "v = w"
proof -
  have "Some v = raw_parse (JSON_stringify v)"
    by (simp only: raw_parse_stringify)
  also have "\<dots> = raw_parse (JSON_stringify w)"
    by (simp only: assms)
  also have "\<dots> = Some w"
    by (simp only: raw_parse_stringify)
  finally show ?thesis by simp
qed

lemma JSON_parse_stringify: "JSON_parse (JSON_stringify v) = Some (normalise v)"
  by (simp add: JSON_parse_def raw_parse_stringify)

section \<open>Storing, scanning and redrawing\<close>

lemma JSON_parse_empty: "JSON_parse [] = None"
  by (simp add: JSON_parse_def raw_parse_def lex.simps(1))

lemma not_index_names:
  "\<not> is_array_index ''labels''" "\<not> is_array_index ''title''" "\<not> is_array_index ''url''"
  by (simp_all add: is_array_index_def digits_ok_def is_digit_def)

lemma normalise_fields:
  "normalise (JObj [(''labels'', l), (''title'', JStr t), (''url'', JStr u)])
     = JObj [(''labels'', normalise l), (''title'', JStr t), (''url'', JStr u)]"
  by (simp add: build_object_def obj_define_def not_index_names)

lemma JSON_parse_encode:
  "JSON_parse (encode ls t u)
     = Some (JObj [(''labels'', normalise (labels_json ls)), (''title'', JStr t), (''url'', JStr u)])"
  unfolding encode_def JSON_parse_stringify by (simp only: normalise_fields)

lemma getItem_setItem:
  "setItem sto k v = Inr sto' \<Longrightarrow> getItem sto' k' = (if k' = k then Some v else getItem sto k')"
  by (auto simp: setItem_def getItem_def Let_def update_conv' split: if_splits)

lemma quota_setItem: "setItem sto k v = Inr sto' \<Longrightarrow> quota sto' = quota sto"
  by (auto simp: setItem_def Let_def split: if_splits)

lemma set_update_subset: "set (AList.update k v al) \<subseteq> insert (k, v) (set al)"
  by (induction al) auto

lemma items_setItem:
  "setItem sto k v = Inr sto' \<Longrightarrow> set (items sto') \<subseteq> insert (k, v) (set (items sto))"
  using set_update_subset [of k v "items sto"]
  by (auto simp: setItem_def Let_def split: if_splits)

lemma saveLabels_ok:
  assumes "truthy_str (documentId st)"
    and "setItem (localStorage st) (getStorageKey None (documentId st))
           (encode (labels st) (pageTitle st) (href st)) = Inr sto"
  shows "saveLabels st = st\<lparr>localStorage := sto,
           lastKnownLabelsJson := JSON_stringify (labels_json (labels st))\<rparr>"
  using assms by (simp add: saveLabels_def)

lemma labels_saveLabels: "labels (saveLabels st) = labels st"
  by (simp add: saveLabels_def split: sum.splits)

lemma snd_updateLabelsDisplay:
  "snd (updateLabelsDisplay st) = st\<lparr>displayUpdates := Suc (displayUpdates st)\<rparr>"
  by (simp add: updateLabelsDisplay_def Let_def split: labels_val.splits)

lemma labels_updateLabelsDisplay: "labels (snd (updateLabelsDisplay st)) = labels st"
  by (simp add: snd_updateLabelsDisplay)

lemma localStorage_updateLabelsDisplay:
  "localStorage (snd (updateLabelsDisplay st)) = localStorage st"
  by (simp add: snd_updateLabelsDisplay)

lemma first_error_None: "(\<forall>r \<in> set rs. r = None) \<Longrightarrow> first_error rs = None"
  by (induction rs) auto

lemma first_error_Some: "first_error rs = Some e \<Longrightarrow> Some e \<in> set rs"
  by (induction rs rule: first_error.induct) auto

lemma join_results_error:
  "join_results rs = Inl e \<Longrightarrow> Inl e \<in> set rs"
  by (induction rs rule: join_results.induct) (auto split: sum.splits)

lemma js_to_string_error: "js_to_string v = Inl e \<Longrightarrow> e = TypeError"
proof (induction v arbitrary: e)
  case (JArr xs)
  from JArr.prems have "Inl e \<in> set (map (\<lambda>x. if x = JNull then Inr [] else js_to_string x) xs)"
    by (auto dest: join_results_error)
  then obtain x where "x \<in> set xs" and "js_to_string x = Inl e"
    by (auto split: if_splits)
  then show ?case
    using JArr.IH by blast
qed (auto split: if_splits)

lemma conversion_error_printable: "printable v \<Longrightarrow> conversion_error v = None"
  by (auto simp: printable_def conversion_error_def split: sum.splits)

lemma conversion_error_type: "conversion_error v = Some e \<Longrightarrow> e = TypeError"
  by (auto simp: conversion_error_def dest: js_to_string_error split: sum.splits)

lemma populate_error: "populateDocumentList l st = Some e \<Longrightarrow> e = TypeError"
  unfolding populateDocumentList_def
  by (auto dest!: first_error_Some split: if_splits option.splits)
     (metis conversion_error_type)+

lemma display_row_error: "display_row st x = Some e \<Longrightarrow> e = TypeError"
  by (auto simp: display_row_def to_property_key_def
        dest: js_to_string_error populate_error split: sum.splits option.splits if_splits)

lemma updateLabelsDisplay_error:
  "fst (updateLabelsDisplay st) = Some e \<Longrightarrow> e = TypeError"
  by (auto simp: updateLabelsDisplay_def Let_def
        dest!: first_error_Some dest: display_row_error [OF sym]
        split: if_splits labels_val.splits)

lemma decode_entry_printable:
  assumes "decode_entry docId data = Inr (l, t, u)"
    and "case data of
           JObj kvs \<Rightarrow>
             (case map_of kvs ''title'' of None \<Rightarrow> True | Some v \<Rightarrow> printable v)
             \<and> (case map_of kvs ''url'' of None \<Rightarrow> True | Some v \<Rightarrow> printable v)
         | _ \<Rightarrow> True"
  shows "printable t \<and> printable u"
  using assms
  by (cases data)
     (auto simp: decode_entry_def Let_def js_or_def printable_def split: option.splits if_splits)

lemma scan_printable:
  assumes "plain_records sto"
  shows "\<forall>doc \<in> set (scan l cur sto keys). printable (doc_title doc) \<and> printable (doc_url doc)"
proof (induction keys)
  case Nil
  show ?case by simp
next
  case (Cons key keys)
  have "printable (doc_title d) \<and> printable (doc_url d)"
    if p: "take 10 key = ''gd-labels-''" and s: "scan_entry l cur sto key = Inr (Some d)" for d
  proof -
    from s obtain saved data ls t u where
      g: "getItem sto key = Some saved" and j: "JSON_parse saved = Some data"
      and e: "decode_entry (drop 10 key) data = Inr (ls, t, u)"
      and d: "doc_title d = t" "doc_url d = u"
      by (auto simp: scan_entry_def Let_def decode_entry_def
            split: option.splits sum.splits if_splits prod.splits)
    from g have "(key, saved) \<in> set (items sto)"
      by (auto simp: getItem_def dest: map_of_SomeD)
    with assms p j have "case data of
           JObj kvs \<Rightarrow>
             (case map_of kvs ''title'' of None \<Rightarrow> True | Some v \<Rightarrow> printable v)
             \<and> (case map_of kvs ''url'' of None \<Rightarrow> True | Some v \<Rightarrow> printable v)
         | _ \<Rightarrow> True"
      by (fastforce simp: plain_records_def)
    from decode_entry_printable [OF e this] d show ?thesis
      by simp
  qed
  with Cons show ?case
    by (auto split: sum.splits option.splits)
qed

lemma populate_plain:
  assumes "plain_records (localStorage st)"
  shows "populateDocumentList l st = None"
  unfolding populateDocumentList_def findDocumentsWithLabel_def
  using scan_printable [OF assms, of l "documentId st" "map fst (items (localStorage st))"]
  by (auto intro!: first_error_None simp: conversion_error_printable)

lemma updateLabelsDisplay_plain:
  assumes "labels st = LArr xs" and "plain_labels xs" and "plain_records (localStorage st)"
  shows "fst (updateLabelsDisplay st) = None"
proof -
  have "display_row st x = None" if "x \<in> set xs" for x
  proof -
    from assms(2) that obtain key where "to_property_key x = Inr key"
      by (cases x) (auto simp: plain_labels_def printable_def to_property_key_def split: sum.splits)
    then show ?thesis
      by (simp add: display_row_def populate_plain [OF assms(3)])
  qed
  then have "first_error (map (display_row st) xs) = None"
    by (auto intro!: first_error_None)
  then show ?thesis
    using assms(1) by (simp add: updateLabelsDisplay_def Let_def)
qed

lemma plain_records_setItem:
  assumes "plain_records sto" and "setItem sto k (encode ls t u) = Inr sto'"
  shows "plain_records sto'"
proof -
  have "printable (JStr t)" "printable (JStr u)"
    by (simp_all add: printable_def)
  then have "case JSON_parse (encode ls t u) of
           Some (JObj kvs) \<Rightarrow>
             (case map_of kvs ''title'' of None \<Rightarrow> True | Some v \<Rightarrow> printable v)
             \<and> (case map_of kvs ''url'' of None \<Rightarrow> True | Some v \<Rightarrow> printable v)
         | _ \<Rightarrow> True"
    by (simp add: JSON_parse_encode)
  then show ?thesis
    using assms(1) items_setItem [OF assms(2)]
    unfolding plain_records_def by fastforce
qed

lemma plain_records_saveLabels:
  "plain_records (localStorage st) \<Longrightarrow> plain_records (localStorage (saveLabels st))"
  by (auto simp: saveLabels_def dest: plain_records_setItem split: sum.splits)


section \<open>Reordering by drag and drop\<close>

lemma splice_start_nat: "k \<le> n \<Longrightarrow> splice_start (int k) n = k"
  by (simp add: splice_start_def)

lemma splice_remove_in_range:
  "k < length xs \<Longrightarrow> splice_remove (int k) xs = take k xs @ drop (Suc k) xs"
  by (simp add: splice_remove_def splice_start_nat)

lemma splice_remove_beyond:
  "int (length xs) \<le> i \<Longrightarrow> splice_remove i xs = xs"
  by (simp add: splice_remove_def splice_start_def)

lemma splice_insert_in_range:
  "k \<le> length xs \<Longrightarrow> splice_insert (int k) x xs = take k xs @ x # drop k xs"
  by (simp add: splice_insert_def splice_start_nat)

lemma insert_then_remove:
  assumes "j \<le> length ys"
  shows "splice_insert (int j) x ys ! j = x"
    and "j < length (splice_insert (int j) x ys)"
    and "splice_remove (int j) (splice_insert (int j) x ys) = ys"
proof -
  let ?zs = "take j ys @ x # drop j ys"
  have ins: "splice_insert (int j) x ys = ?zs"
    using assms by (rule splice_insert_in_range)
  have lt: "length (take j ys) = j" using assms by simp
  show "splice_insert (int j) x ys ! j = x"
    unfolding ins using lt by (metis nth_append_length)
  have len: "length ?zs = Suc (length ys)"
    using assms by simp
  then show lz: "j < length (splice_insert (int j) x ys)"
    unfolding ins using assms by arith
  have t: "take j ?zs = take j ys" using lt by simp
  have "drop (Suc j) ?zs = drop (Suc j - length (take j ys)) (x # drop j ys)"
    unfolding drop_append using lt by simp
  then have d: "drop (Suc j) ?zs = drop j ys" using lt by simp
  show "splice_remove (int j) (splice_insert (int j) x ys) = ys"
    using lz unfolding ins by (simp only: splice_remove_in_range t d append_take_drop_id)
qed

lemma remove_then_insert:
  assumes "i < length xs"
  shows "splice_insert (int i) (xs ! i) (splice_remove (int i) xs) = xs"
proof -
  let ?ys = "take i xs @ drop (Suc i) xs"
  have r: "splice_remove (int i) xs = ?ys"
    using assms by (rule splice_remove_in_range)
  have iy: "i \<le> length ?ys" using assms by simp
  have "splice_insert (int i) (xs ! i) ?ys = take i ?ys @ xs ! i # drop i ?ys"
    using iy by (rule splice_insert_in_range)
  also have "take i ?ys = take i xs" using assms by simp
  also have "drop i ?ys = drop (Suc i) xs" using assms by simp
  finally have "splice_insert (int i) (xs ! i) ?ys = xs"
    using assms by (simp add: id_take_nth_drop [symmetric])
  then show ?thesis by (simp only: r)
qed

lemma set_splice_remove: "set (splice_remove i xs) \<subseteq> set xs"
  by (auto simp: splice_remove_def Let_def dest: in_set_takeD in_set_dropD)

lemma plain_labels_splice_remove: "plain_labels xs \<Longrightarrow> plain_labels (splice_remove i xs)"
  using set_splice_remove [of i xs] by (auto simp: plain_labels_def)

lemma drop_handler_array:
  assumes "labels st = LArr xs" and "draggedIndex st = Some (int d)"
    and "d < length xs" and "t \<noteq> int d"
  shows "drop_handler t st =
           updateLabelsDisplay
             (saveLabels (st\<lparr>labels := LArr (splice_insert t (xs ! d) (splice_remove (int d) xs))\<rparr>))"
  using assms by (simp add: drop_handler_def Let_def)

lemma drop_result:
  "labels (snd (updateLabelsDisplay (saveLabels (st\<lparr>labels := l\<rparr>)))) = l"
  by (simp add: labels_updateLabelsDisplay labels_saveLabels)

lemma drop_completes:
  assumes "plain_labels zs" and "plain_records (localStorage st)"
  shows "fst (updateLabelsDisplay (saveLabels (st\<lparr>labels := LArr zs\<rparr>))) = None"
proof -
  let ?s = "saveLabels (st\<lparr>labels := LArr zs\<rparr>)"
  have a: "labels ?s = LArr zs"
    by (simp add: labels_saveLabels)
  have b: "plain_records (localStorage ?s)"
    using assms(2) by (intro plain_records_saveLabels) simp
  show ?thesis
    using a assms(1) b by (rule updateLabelsDisplay_plain)
qed

text \<open>
  Claim C6.  For a label array \<open>xs\<close> and two distinct in-range positions \<open>i\<close> and
  \<open>j\<close>, dropping the row dragged from \<open>i\<close> onto row \<open>j\<close> removes the element at
  \<open>i\<close> and reinserts it at position \<open>j\<close> of the array that is left after the removal
  (one \<open>splice\<close> removing, one \<open>splice\<close> inserting; not an exchange of two elements), and
  dragging it back from \<open>j\<close> onto \<open>i\<close> restores \<open>xs\<close>.  Both drops leave these
  label lists behind whether or not the redraw at their end throws, and they complete
  without an exception when every label has a string conversion and so have the titles and
  urls of the stored records.
\<close>

theorem reorder_is_remove_then_insert:
  assumes "labels st = LArr xs" and "draggedIndex st = Some (int i)"
    and "i < length xs" and "j < length xs" and "i \<noteq> j"
  shows "\<exists>e1 st1. drop_handler (int j) st = (e1, st1)
           \<and> labels st1 = LArr (take j (take i xs @ drop (Suc i) xs) @ xs ! i
                                 # drop j (take i xs @ drop (Suc i) xs))
           \<and> (\<exists>e2 st2. drop_handler (int i) (st1\<lparr>draggedIndex := Some (int j)\<rparr>) = (e2, st2)
                    \<and> labels st2 = LArr xs
                    \<and> (plain_labels xs \<and> plain_records (localStorage st)
                         \<longrightarrow> e1 = None \<and> e2 = None))"
proof -
  let ?ys = "take i xs @ drop (Suc i) xs"
  let ?zs = "take j ?ys @ xs ! i # drop j ?ys"
  let ?r1 = "updateLabelsDisplay (saveLabels (st\<lparr>labels := LArr ?zs\<rparr>))"
  let ?st1' = "(snd ?r1)\<lparr>draggedIndex := Some (int j)\<rparr>"
  let ?r2 = "updateLabelsDisplay (saveLabels (?st1'\<lparr>labels := LArr xs\<rparr>))"
  have r: "splice_remove (int i) xs = ?ys"
    using assms(3) by (rule splice_remove_in_range)
  have jy: "j \<le> length ?ys" using assms(3,4) by simp
  note sir = splice_insert_in_range [OF jy, of "xs ! i"]
  have ij: "int j \<noteq> int i" "int i \<noteq> int j" using assms(5) by simp_all
  have d1: "drop_handler (int j) st = ?r1"
    using drop_handler_array [OF assms(1,2,3) ij(1)] by (simp only: r sir)
  have l1: "labels (snd ?r1) = LArr ?zs"
    by (rule drop_result)
  have zj: "?zs ! j = xs ! i"
    using insert_then_remove(1) [OF jy, of "xs ! i"] by (simp only: sir)
  have lz: "j < length ?zs"
    using insert_then_remove(2) [OF jy, of "xs ! i"] by (simp only: sir)
  have rm: "splice_remove (int j) ?zs = ?ys"
    using insert_then_remove(3) [OF jy, of "xs ! i"] by (simp only: sir)
  have l1': "labels ?st1' = LArr ?zs" and g1: "draggedIndex ?st1' = Some (int j)"
    using l1 by simp_all
  have ws: "splice_insert (int i) (?zs ! j) (splice_remove (int j) ?zs) = xs"
    using remove_then_insert [OF assms(3)] by (simp only: zj rm r)
  have d2: "drop_handler (int i) ?st1' = ?r2"
    using drop_handler_array [OF l1' g1 lz ij(2)] by (simp only: ws)
  have l2: "labels (snd ?r2) = LArr xs"
    by (rule drop_result)
  have c: "fst ?r1 = None \<and> fst ?r2 = None"
    if p: "plain_labels xs" and q: "plain_records (localStorage st)"
  proof -
    have "set ?zs \<subseteq> set xs"
      using assms(3) by (auto dest: in_set_takeD in_set_dropD)
    with p have pz: "plain_labels ?zs"
      unfolding plain_labels_def by blast
    have c1: "fst ?r1 = None"
      using pz q by (rule drop_completes)
    have "plain_records (localStorage (saveLabels (st\<lparr>labels := LArr ?zs\<rparr>)))"
      using q by (intro plain_records_saveLabels) simp
    then have "plain_records (localStorage ?st1')"
      by (simp add: snd_updateLabelsDisplay)
    with p have "fst ?r2 = None"
      by (rule drop_completes)
    with c1 show ?thesis ..
  qed
  have "drop_handler (int j) st = (fst ?r1, snd ?r1)"
    by (simp only: d1 prod.collapse)
  moreover have "drop_handler (int i) ?st1' = (fst ?r2, snd ?r2)"
    by (simp only: d2 prod.collapse)
  ultimately show ?thesis
    using l1 l2 c by blast
qed

theorem reorder_is_remove_then_insert_witness:
  "labels expanded_state = LArr [Some (JStr ''a''), Some (JStr ''b''), Some (JStr ''c'')]
   \<and> draggedIndex expanded_state = Some 0
   \<and> plain_labels [Some (JStr ''a''), Some (JStr ''b''), Some (JStr ''c'')]
   \<and> plain_records (localStorage expanded_state)
   \<and> (\<exists>st1. drop_handler 2 expanded_state = (None, st1)
          \<and> labels st1 = LArr [Some (JStr ''b''), Some (JStr ''c''), Some (JStr ''a'')]
          \<and> (\<exists>st2. drop_handler 0 (st1\<lparr>draggedIndex := Some 2\<rparr>) = (None, st2)
                   \<and> labels st2 = LArr [Some (JStr ''a''), Some (JStr ''b''), Some (JStr ''c'')]))"
proof -
  let ?xs = "[Some (JStr ''a''), Some (JStr ''b''), Some (JStr ''c'')]"
  have l: "labels expanded_state = LArr ?xs"
    by (simp add: expanded_state_def example_state_def)
  have g: "draggedIndex expanded_state = Some (int 0)"
    by (simp add: expanded_state_def example_state_def)
  have p: "plain_labels ?xs"
    by (simp add: plain_labels_def printable_def)
  have q: "plain_records (localStorage expanded_state)"
    by code_simp
  from reorder_is_remove_then_insert [OF l g, of 2] p q obtain e1 st1 e2 st2 where
    "drop_handler (int 2) expanded_state = (e1, st1)"
    "labels st1 = LArr (take 2 (take 0 ?xs @ drop (Suc 0) ?xs) @ ?xs ! 0
                         # drop 2 (take 0 ?xs @ drop (Suc 0) ?xs))"
    "drop_handler (int 0) (st1\<lparr>draggedIndex := Some (int 2)\<rparr>) = (e2, st2)"
    "labels st2 = LArr ?xs" "e1 = None" "e2 = None"
    by force
  then show ?thesis
    using l g p q by auto
qed

section \<open>Saving and loading\<close>

lemma normalise_strings: "normalise (JArr (map JStr ls)) = JArr (map JStr ls)"
  by (induction ls) simp_all

lemma labels_json_strings: "labels_json (LArr (map (\<lambda>l. Some (JStr l)) ls)) = JArr (map JStr ls)"
  by (simp add: comp_def)

lemma loadLabels_stored:
  assumes "truthy_str (documentId st)"
    and "getItem (localStorage st) (getStorageKey None (documentId st)) = Some saved"
    and "JSON_parse saved = Some data" and "read_labels data = Inr l"
  shows "loadLabels st = st\<lparr>labels := labels_of_json l,
           lastKnownLabelsJson := JSON_stringify (labels_json (labels_of_json l))\<rparr>"
proof -
  have "saved \<noteq> []" using assms(3) JSON_parse_empty by auto
  then show ?thesis using assms by (simp add: loadLabels_def)
qed

lemma loadLabels_encoded:
  assumes "truthy_str (documentId st)"
    and "getItem (localStorage st) (getStorageKey None (documentId st))
           = Some (encode (LArr (map (\<lambda>l. Some (JStr l)) ls)) t u)"
  shows "loadLabels st
           = st\<lparr>labels := LArr (map (\<lambda>l. Some (JStr l)) ls),
                lastKnownLabelsJson := JSON_stringify (JArr (map JStr ls))\<rparr>"
proof -
  let ?ls = "LArr (map (\<lambda>l. Some (JStr l)) ls)"
  have p: "JSON_parse (encode ?ls t u)
      = Some (JObj [(''labels'', JArr (map JStr ls)), (''title'', JStr t), (''url'', JStr u)])"
    unfolding JSON_parse_encode labels_json_strings by (simp only: normalise_strings)
  have r: "read_labels (JObj [(''labels'', JArr (map JStr ls)), (''title'', JStr t), (''url'', JStr u)])
      = Inr (JArr (map JStr ls))"
    by (simp add: read_labels_def js_or_def)
  show ?thesis
    using loadLabels_stored [OF assms p r] by (simp add: comp_def)
qed

text \<open>
  Claim C9, as stated, fails on the code for a well-formed record whose title is the empty
  string.  The record with labels \<open>["x"]\<close>, an empty title and the url of document \<open>D\<close>
  is encoded with its empty title, and the decoder of the label scan reads it back with the
  title \<open>"Untitled"\<close>: \<open>data.title || 'Untitled'\<close> replaces an empty title as it does a
  missing one.
\<close>

theorem roundtrip_empty_title_counterexample:
  \<open>encode (LArr [Some (JStr ''x'')]) [] ''https://docs.google.com/document/d/D/edit''
     = ''{"labels":["x"],"title":"","url":"https://docs.google.com/document/d/D/edit"}''
   \<and> map_option (decode_entry ''D'')
         (JSON_parse (encode (LArr [Some (JStr ''x'')]) []
                        ''https://docs.google.com/document/d/D/edit''))
       = Some (Inr (JArr [JStr ''x''], JStr ''Untitled'',
                    JStr ''https://docs.google.com/document/d/D/edit''))
   \<and> fst (findDocumentsWithLabel (Some (JStr ''x'')) untitled_state)
       = [\<lparr>doc_id = ''D'', doc_title = JStr ''Untitled'',
           doc_url = JStr ''https://docs.google.com/document/d/D/edit'', isCurrent = False\<rparr>]\<close>
  by code_simp

text \<open>
  Claim C9, amended.  For a record whose labels are a sequence of strings and whose title
  and url are non-empty strings, encoding it the way \<open>saveLabels\<close> does and decoding the
  stored text gives the record back, with every decoder of the script: the decoder of the
  label scan returns the same labels, title and url; \<open>loadLabels\<close>, on any state whose
  stored value for the active document is the encoded text, sets the working labels and the
  last-known snapshot to the encoded labels, whatever the working labels were before; and
  the import reads the same three-field object.  For the labels, and for the value
  \<open>JSON.parse\<close> returns, this holds for every title and url, empty ones included; only
  the scan replaces an empty title or url by its default.  A successful \<open>saveLabels\<close>
  stores the encoded text, and \<open>loadLabels\<close> after it restores the saved labels even
  when the working labels have been replaced in between.
\<close>

theorem encode_decode_roundtrip:
  "JSON_parse (encode (LArr (map (\<lambda>l. Some (JStr l)) ls)) t u)
     = Some (JObj [(''labels'', JArr (map JStr ls)), (''title'', JStr t), (''url'', JStr u)])
   \<and> (t \<noteq> [] \<and> u \<noteq> [] \<longrightarrow>
        map_option (decode_entry docId) (JSON_parse (encode (LArr (map (\<lambda>l. Some (JStr l)) ls)) t u))
          = Some (Inr (JArr (map JStr ls), JStr t, JStr u)))
   \<and> existing_data dflt (Some (encode (LArr (map (\<lambda>l. Some (JStr l)) ls)) t u))
       = JObj [(''labels'', JArr (map JStr ls)), (''title'', JStr t), (''url'', JStr u)]
   \<and> (truthy_str (documentId st)
        \<and> getItem (localStorage st) (getStorageKey None (documentId st))
            = Some (encode (LArr (map (\<lambda>l. Some (JStr l)) ls)) t u)
      \<longrightarrow> labels (loadLabels st) = LArr (map (\<lambda>l. Some (JStr l)) ls)
          \<and> lastKnownLabelsJson (loadLabels st) = JSON_stringify (JArr (map JStr ls)))
   \<and> (truthy_str (documentId st0) \<and> labels st0 = LArr (map (\<lambda>l. Some (JStr l)) ls)
        \<and> storage_size (AList.update (getStorageKey None (documentId st0))
                          (encode (labels st0) (pageTitle st0) (href st0)) (items (localStorage st0)))
            \<le> quota (localStorage st0)
      \<longrightarrow> getItem (localStorage (saveLabels st0)) (getStorageKey None (documentId st0))
              = Some (encode (labels st0) (pageTitle st0) (href st0))
          \<and> labels (loadLabels ((saveLabels st0)\<lparr>labels := other\<rparr>)) = labels st0)"
proof -
  let ?ls = "LArr (map (\<lambda>l. Some (JStr l)) ls)"
  let ?rec = "JObj [(''labels'', JArr (map JStr ls)), (''title'', JStr t), (''url'', JStr u)]"
  have p: "JSON_parse (encode ?ls t u) = Some ?rec"
    unfolding JSON_parse_encode labels_json_strings by (simp only: normalise_strings)
  have ne: "encode ?ls t u \<noteq> []"
    using p JSON_parse_empty by auto
  have a: "map_option (decode_entry docId) (JSON_parse (encode ?ls t u))
      = Some (Inr (JArr (map JStr ls), JStr t, JStr u))"
    if "t \<noteq> [] \<and> u \<noteq> []"
    using that by (simp add: p decode_entry_def js_or_def)
  have b: "existing_data dflt (Some (encode ?ls t u)) = ?rec"
    using ne by (simp add: existing_data_def p js_or_def obj_define_def)
  have c: "labels (loadLabels st) = ?ls
      \<and> lastKnownLabelsJson (loadLabels st) = JSON_stringify (JArr (map JStr ls))"
    if "truthy_str (documentId st)
        \<and> getItem (localStorage st) (getStorageKey None (documentId st)) = Some (encode ?ls t u)"
    using that loadLabels_encoded [of st ls t u] by simp
  have d: "getItem (localStorage (saveLabels st0)) (getStorageKey None (documentId st0))
          = Some (encode (labels st0) (pageTitle st0) (href st0))
      \<and> labels (loadLabels ((saveLabels st0)\<lparr>labels := other\<rparr>)) = labels st0"
    if h: "truthy_str (documentId st0) \<and> labels st0 = ?ls
      \<and> storage_size (AList.update (getStorageKey None (documentId st0))
                        (encode (labels st0) (pageTitle st0) (href st0)) (items (localStorage st0)))
          \<le> quota (localStorage st0)"
  proof -
    let ?key = "getStorageKey None (documentId st0)"
    let ?v = "encode (labels st0) (pageTitle st0) (href st0)"
    let ?sto = "(localStorage st0)\<lparr>items := AList.update ?key ?v (items (localStorage st0))\<rparr>"
    let ?st1 = "st0\<lparr>localStorage := ?sto,
                  lastKnownLabelsJson := JSON_stringify (labels_json (labels st0))\<rparr>"
    from h have dd: "truthy_str (documentId st0)" and l: "labels st0 = ?ls"
      and q: "storage_size (AList.update ?key ?v (items (localStorage st0))) \<le> quota (localStorage st0)"
      by blast+
    have w: "setItem (localStorage st0) ?key ?v = Inr ?sto"
      using q by (simp add: setItem_def Let_def)
    have sv: "saveLabels st0 = ?st1"
      using saveLabels_ok [OF dd w] .
    have g: "getItem (localStorage ?st1) ?key = Some ?v"
      using getItem_setItem [OF w, of ?key] by simp
    have g': "getItem (localStorage (?st1\<lparr>labels := other\<rparr>))
               (getStorageKey None (documentId (?st1\<lparr>labels := other\<rparr>)))
             = Some (encode ?ls (pageTitle st0) (href st0))"
      using g l by simp
    have d': "truthy_str (documentId (?st1\<lparr>labels := other\<rparr>))"
      using dd by simp
    have "labels (loadLabels (?st1\<lparr>labels := other\<rparr>)) = ?ls"
      by (simp only: loadLabels_encoded [OF d' g']) simp
    then show ?thesis
      using g l by (simp add: sv)
  qed
  from p a b c d show ?thesis
    by blast
qed

theorem encode_decode_roundtrip_witness:
  \<open>truthy_str (documentId saved_state)
   \<and> getItem (localStorage saved_state) (getStorageKey None (documentId saved_state))
       = Some (encode (LArr (map (\<lambda>l. Some (JStr l)) [''a'', ''b''])) ''T''
                 ''https://docs.google.com/document/d/A/edit'')
   \<and> labels saved_state = LArr []
   \<and> labels (loadLabels saved_state) = LArr [Some (JStr ''a''), Some (JStr ''b'')]
   \<and> lastKnownLabelsJson (loadLabels saved_state) = ''["a","b"]''
   \<and> map_option (decode_entry ''A'')
        (JSON_parse (encode (LArr (map (\<lambda>l. Some (JStr l)) [''a'', ''b''])) ''T''
                       ''https://docs.google.com/document/d/A/edit''))
       = Some (Inr (JArr [JStr ''a'', JStr ''b''], JStr ''T'',
                    JStr ''https://docs.google.com/document/d/A/edit''))
   \<and> labels example_state = LArr (map (\<lambda>l. Some (JStr l)) [''a'', ''b'', ''c''])
   \<and> labels (loadLabels ((saveLabels example_state)\<lparr>labels := LArr []\<rparr>)) = labels example_state\<close>
proof -
  have q: "storage_size (AList.update (getStorageKey None (documentId example_state))
             (encode (labels example_state) (pageTitle example_state) (href example_state))
             (items (localStorage example_state)))
           \<le> quota (localStorage example_state)"
    by (simp add: example_state_def storage_size_def getStorageKey_def truthy_str_def
          encode_def quote_def escape_char_def dquote_def bslash_def)
  have d: "truthy_str (documentId example_state)"
    by (simp add: example_state_def truthy_str_def)
  have l: "labels example_state = LArr (map (\<lambda>l. Some (JStr l)) [''a'', ''b'', ''c''])"
    by (simp add: example_state_def)
  have d2: "truthy_str (documentId saved_state)"
    by (simp add: saved_state_def example_state_def truthy_str_def)
  have g2: "getItem (localStorage saved_state) (getStorageKey None (documentId saved_state))
       = Some (encode (LArr (map (\<lambda>l. Some (JStr l)) [''a'', ''b''])) ''T''
                 ''https://docs.google.com/document/d/A/edit'')"
    by (simp add: saved_state_def example_state_def getItem_def getStorageKey_def truthy_str_def)
  have l2: "labels saved_state = LArr []"
    by (simp add: saved_state_def)
  have s: \<open>JSON_stringify (JArr (map JStr [''a'', ''b''])) = ''["a","b"]''\<close>
    by (simp add: quote_def escape_char_def dquote_def bslash_def)
  have n: "''T'' \<noteq> [] \<and> ''https://docs.google.com/document/d/A/edit'' \<noteq> []"
    by simp
  note t1 = encode_decode_roundtrip
        [of "[''a'', ''b'']" "''T''" "''https://docs.google.com/document/d/A/edit''" "''A''"
            "[]" saved_state example_state "LArr []"]
  note t2 = encode_decode_roundtrip
        [of "[''a'', ''b'', ''c'']" "''T''" "''https://docs.google.com/document/d/A/edit''" "''A''"
            "[]" example_state example_state "LArr []"]
  have a: "labels (loadLabels saved_state) = LArr [Some (JStr ''a''), Some (JStr ''b'')]
      \<and> lastKnownLabelsJson (loadLabels saved_state) = JSON_stringify (JArr (map JStr [''a'', ''b'']))"
    using t1 d2 g2 by simp
  have b: "map_option (decode_entry ''A'')
        (JSON_parse (encode (LArr (map (\<lambda>l. Some (JStr l)) [''a'', ''b''])) ''T''
                       ''https://docs.google.com/document/d/A/edit''))
       = Some (Inr (JArr (map JStr [''a'', ''b'']), JStr ''T'',
                    JStr ''https://docs.google.com/document/d/A/edit''))"
    using t1 n by blast
  have c: "labels (loadLabels ((saveLabels example_state)\<lparr>labels := LArr []\<rparr>)) = labels example_state"
    using t2 d l q by blast
  show ?thesis
    using a b c d2 g2 l2 l s by simp
qed

section \<open>Read paths and the divergence check\<close>

lemma localStorage_loadLabels: "localStorage (loadLabels st) = localStorage st"
  by (simp add: loadLabels_def split: option.splits sum.splits)

lemma localStorage_checkAndReloadLabels: "localStorage (checkAndReloadLabels st) = localStorage st"
  by (simp add: checkAndReloadLabels_def Let_def localStorage_updateLabelsDisplay split: sum.splits)

text \<open>
  Claim C8.  No read path writes to the substrate: \<open>loadLabels\<close>, the divergence check
  \<open>checkAndReloadLabels\<close> and the label scan \<open>findDocumentsWithLabel\<close> leave
  \<open>localStorage\<close> (every stored key and value, and their order) exactly as it was.
\<close>

theorem read_paths_do_not_write:
  "localStorage (loadLabels st) = localStorage st
   \<and> localStorage (checkAndReloadLabels st) = localStorage st
   \<and> localStorage (snd (findDocumentsWithLabel labelName st)) = localStorage st"
  by (simp add: localStorage_loadLabels localStorage_checkAndReloadLabels findDocumentsWithLabel_def)

text \<open>
  Claim C10.  When reading or parsing the active document's stored value throws during a
  divergence check, the check changes nothing: working labels, last-known snapshot and
  substrate stay as they were and the display callback is not run.  On the same state
  \<open>loadLabels\<close> instead degrades to the empty list.
\<close>

theorem check_error_has_no_effect:
  assumes "reread_labels st = Inl e"
  shows "checkAndReloadLabels st = st
         \<and> (truthy_str (documentId st) \<longrightarrow>
              labels (loadLabels st) = LArr [] \<and> lastKnownLabelsJson (loadLabels st) = ''[]'')"
proof -
  have c: "checkAndReloadLabels st = st"
    using assms by (simp add: checkAndReloadLabels_def)
  have l: "loadLabels st = st\<lparr>labels := LArr [], lastKnownLabelsJson := ''[]''\<rparr>"
    if "truthy_str (documentId st)"
    using assms that
    by (auto simp: loadLabels_def reread_labels_def split: option.splits if_splits sum.splits)
  show ?thesis
    using c l by simp
qed

theorem check_error_has_no_effect_witness:
  "reread_labels broken_state = Inl SyntaxError
   \<and> checkAndReloadLabels broken_state = broken_state
   \<and> labels broken_state = LArr [Some (JStr ''a''), Some (JStr ''b''), Some (JStr ''c'')]
   \<and> labels (loadLabels broken_state) = LArr []"
proof -
  have p: "JSON_parse ''{'' = None"
    by (simp add: JSON_parse_def raw_parse_def lex.simps cons_tok_def is_ws_def)
  have r: "reread_labels broken_state = Inl SyntaxError"
    by (simp add: reread_labels_def broken_state_def example_state_def getItem_def
          getStorageKey_def truthy_str_def p)
  have d: "truthy_str (documentId broken_state)"
    by (simp add: broken_state_def example_state_def truthy_str_def)
  have l: "labels broken_state = LArr [Some (JStr ''a''), Some (JStr ''b''), Some (JStr ''c'')]"
    by (simp add: broken_state_def example_state_def)
  show ?thesis
    using check_error_has_no_effect [OF r] r d l by simp
qed

lemma js_or_None: "js_or None d = d"
  by (simp add: js_or_def)

lemma checkAndReloadLabels_read:
  assumes "truthy_str (documentId st)" and "reread_labels st = Inr current"
  shows "checkAndReloadLabels st
           = (if JSON_stringify current = lastKnownLabelsJson st then st
              else st\<lparr>labels := labels_of_json current,
                      lastKnownLabelsJson := JSON_stringify current,
                      displayUpdates := Suc (displayUpdates st)\<rparr>)"
  using assms by (simp add: checkAndReloadLabels_def Let_def snd_updateLabelsDisplay)

text \<open>
  Claim C4.  Let an active document be set, and let \<open>cur\<close> be the labels that its stored
  value holds: the empty sequence when nothing or the empty string is stored, the array
  itself when the stored text parses as a bare array (the legacy schema), the value of
  \<open>data.labels || []\<close> when it parses as an object \<open>data\<close> (the \<open>labels\<close> array of a
  record, the empty sequence for a record without \<open>labels\<close>), and the empty sequence
  when it parses as a number, a string or a boolean.  These are all the stored values for
  which the re-read does not throw.  Then the divergence check does nothing at all when the
  serialization of \<open>cur\<close> equals the last-known snapshot, and otherwise replaces the
  working labels by \<open>cur\<close> and the last-known snapshot by the serialization of \<open>cur\<close>
  and calls the display callback exactly once, changing nothing else.  When the snapshot is
  the serialization of a value \<open>known\<close>, the two serializations are equal exactly when
  \<open>cur\<close> and \<open>known\<close> are equal (for sequences: element by element, in order).
\<close>

theorem check_fires_iff_labels_differ:
  assumes "truthy_str (documentId st)"
    and "getItem (localStorage st) (getStorageKey None (documentId st)) = saved"
    and "saved = None \<and> cur = JArr []
         \<or> saved = Some [] \<and> cur = JArr []
         \<or> saved = Some s \<and> JSON_parse s = Some (JArr xs) \<and> cur = JArr xs
         \<or> saved = Some s \<and> JSON_parse s = Some (JObj kvs)
             \<and> cur = js_or (map_of kvs ''labels'') (JArr [])
         \<or> saved = Some s \<and> JSON_parse s = Some (JNum n) \<and> cur = JArr []
         \<or> saved = Some s \<and> JSON_parse s = Some (JStr t) \<and> cur = JArr []
         \<or> saved = Some s \<and> JSON_parse s = Some (JBool b) \<and> cur = JArr []"
  shows "checkAndReloadLabels st
           = (if JSON_stringify cur = lastKnownLabelsJson st then st
              else st\<lparr>labels := labels_of_json cur,
                      lastKnownLabelsJson := JSON_stringify cur,
                      displayUpdates := Suc (displayUpdates st)\<rparr>)
         \<and> (lastKnownLabelsJson st = JSON_stringify known \<longrightarrow>
              (JSON_stringify cur = lastKnownLabelsJson st) = (cur = known))"
proof -
  have ne: "s \<noteq> []" if "JSON_parse s = Some v" for v
    using that JSON_parse_empty by auto
  have "reread_labels st = Inr cur"
    using assms(2,3) ne
    by (auto simp: reread_labels_def read_labels_def js_or_None)
  from checkAndReloadLabels_read [OF assms(1) this]
  have a: "checkAndReloadLabels st
           = (if JSON_stringify cur = lastKnownLabelsJson st then st
              else st\<lparr>labels := labels_of_json cur,
                      lastKnownLabelsJson := JSON_stringify cur,
                      displayUpdates := Suc (displayUpdates st)\<rparr>)" .
  have "(JSON_stringify cur = JSON_stringify known) = (cur = known)"
    using JSON_stringify_inj [of cur known] by auto
  with a show ?thesis
    by simp
qed

theorem check_fires_iff_labels_differ_witness:
  \<open>truthy_str (documentId synced_state)
   \<and> getItem (localStorage synced_state) (getStorageKey None (documentId synced_state))
       = Some ''{"labels":["a","b","c"],"title":"T","url":"https://docs.google.com/document/d/A/edit"}''
   \<and> lastKnownLabelsJson synced_state = ''["a","b"]''
   \<and> checkAndReloadLabels synced_state
       = synced_state\<lparr>labels := LArr [Some (JStr ''a''), Some (JStr ''b''), Some (JStr ''c'')],
                      lastKnownLabelsJson := ''["a","b","c"]'',
                      displayUpdates := Suc (displayUpdates synced_state)\<rparr>
   \<and> checkAndReloadLabels (checkAndReloadLabels synced_state) = checkAndReloadLabels synced_state\<close>
proof -
  let ?s = \<open>''{"labels":["a","b","c"],"title":"T","url":"https://docs.google.com/document/d/A/edit"}''\<close>
  let ?kvs = "[(''labels'', JArr [JStr ''a'', JStr ''b'', JStr ''c'']), (''title'', JStr ''T''),
               (''url'', JStr ''https://docs.google.com/document/d/A/edit'')]"
  let ?xs = "[JStr ''a'', JStr ''b'', JStr ''c'']"
  let ?st1 = "synced_state\<lparr>labels := LArr (map Some ?xs),
                 lastKnownLabelsJson := JSON_stringify (JArr ?xs),
                 displayUpdates := Suc (displayUpdates synced_state)\<rparr>"
  have p: "JSON_parse ?s = Some (JObj ?kvs)"
    by code_simp
  have d: "truthy_str (documentId synced_state)"
    by (simp add: synced_state_def example_state_def truthy_str_def)
  have g: "getItem (localStorage synced_state) (getStorageKey None (documentId synced_state)) = Some ?s"
    by (simp add: synced_state_def example_state_def getItem_def getStorageKey_def truthy_str_def)
  have m: "JArr ?xs = js_or (map_of ?kvs ''labels'') (JArr [])"
    by (simp add: js_or_def)
  have k: \<open>lastKnownLabelsJson synced_state = ''["a","b"]''\<close>
    by (simp add: synced_state_def quote_def escape_char_def dquote_def bslash_def)
  have j: \<open>JSON_stringify (JArr ?xs) = ''["a","b","c"]''\<close>
    by (simp add: quote_def escape_char_def dquote_def bslash_def)
  have k0: "lastKnownLabelsJson synced_state = JSON_stringify (JArr [JStr ''a'', JStr ''b''])"
    by (simp add: synced_state_def)
  have c1: "checkAndReloadLabels synced_state = ?st1"
    using check_fires_iff_labels_differ
            [OF d g, of "JArr ?xs" ?s _ ?kvs _ _ _ "JArr [JStr ''a'', JStr ''b'']"] p m k0
    by simp
  have d1: "truthy_str (documentId ?st1)"
    using d by simp
  have g1: "getItem (localStorage ?st1) (getStorageKey None (documentId ?st1)) = Some ?s"
    using g by simp
  have c2: "checkAndReloadLabels ?st1 = ?st1"
    using check_fires_iff_labels_differ [OF d1 g1, of "JArr ?xs" ?s _ ?kvs] p m by simp
  show ?thesis
    using d g k j c2 by (simp add: c1)
qed

section \<open>The legacy schema, and removing a label\<close>

text \<open>
  Claim C7, as stated, fails on the code: the label scan decodes the legacy bare array
  \<open>["x","y"]\<close> stored for document \<open>D\<close> with the url derived from the document id, not
  with the empty url.
\<close>

theorem legacy_decode_url_counterexample:
  \<open>map_option (decode_entry ''D'') (JSON_parse ''["x","y"]'')
     \<noteq> Some (Inr (JArr [JStr ''x'', JStr ''y''], JStr ''Untitled'', JStr ''''))\<close>
proof -
  have p: \<open>JSON_parse ''["x","y"]'' = Some (JArr [JStr ''x'', JStr ''y''])\<close>
    by (simp add: JSON_parse_def raw_parse_def lex.simps cons_tok_def cons_str_def
          is_ws_def dquote_def bslash_def is_digit_def)
  show ?thesis
    by (simp add: p decode_entry_def)
qed

text \<open>
  Claim C7, amended.  A stored value that parses as a bare JSON array (the legacy schema) is
  decoded without loss of its labels: the label scan reads it as labels = that array, title
  \<open>"Untitled"\<close> and url \<open>https://docs.google.com/document/d/<docId>/edit\<close> (derived from the
  document id of the storage key), \<open>loadLabels\<close> takes the array as the working label list,
  and the import path puts the array into a record with the payload entry's title and url.
\<close>

theorem legacy_array_decode:
  assumes "JSON_parse saved = Some (JArr xs)"
  shows "map_option (decode_entry docId) (JSON_parse saved)
           = Some (Inr (JArr xs, JStr ''Untitled'',
                        JStr (''https://docs.google.com/document/d/'' @ docId @ ''/edit'')))
         \<and> (truthy_str (documentId st)
              \<and> getItem (localStorage st) (getStorageKey None (documentId st)) = Some saved
            \<longrightarrow> labels (loadLabels st) = LArr (map Some xs))
         \<and> existing_data [(''labels'', JArr []), (''title'', t), (''url'', u)] (Some saved)
             = JObj [(''labels'', JArr xs), (''title'', t), (''url'', u)]"
proof -
  have ne: "saved \<noteq> []" using assms JSON_parse_empty by auto
  have a: "map_option (decode_entry docId) (JSON_parse saved)
      = Some (Inr (JArr xs, JStr ''Untitled'',
                   JStr (''https://docs.google.com/document/d/'' @ docId @ ''/edit'')))"
    using assms by (simp add: decode_entry_def)
  have b: "labels (loadLabels st) = LArr (map Some xs)"
    if "truthy_str (documentId st)"
      and "getItem (localStorage st) (getStorageKey None (documentId st)) = Some saved"
    using loadLabels_stored [OF that assms, of "JArr xs"] by (simp add: read_labels_def)
  have c: "existing_data [(''labels'', JArr []), (''title'', t), (''url'', u)] (Some saved)
      = JObj [(''labels'', JArr xs), (''title'', t), (''url'', u)]"
    using assms ne by (simp add: existing_data_def obj_define_def)
  from a b c show ?thesis by blast
qed

theorem legacy_array_decode_witness:
  \<open>JSON_parse ''["x","y"]'' = Some (JArr [JStr ''x'', JStr ''y''])
   \<and> map_option (decode_entry ''A'') (JSON_parse ''["x","y"]'')
       = Some (Inr (JArr [JStr ''x'', JStr ''y''], JStr ''Untitled'',
                    JStr ''https://docs.google.com/document/d/A/edit''))
   \<and> labels (loadLabels legacy_state) = LArr [Some (JStr ''x''), Some (JStr ''y'')]\<close>
proof -
  have p: \<open>JSON_parse ''["x","y"]'' = Some (JArr [JStr ''x'', JStr ''y''])\<close>
    by (simp add: JSON_parse_def raw_parse_def lex.simps cons_tok_def cons_str_def
          is_ws_def dquote_def bslash_def is_digit_def)
  have d: "truthy_str (documentId legacy_state)"
    by (simp add: legacy_state_def example_state_def truthy_str_def)
  have g: \<open>getItem (localStorage legacy_state) (getStorageKey None (documentId legacy_state))
      = Some ''["x","y"]''\<close>
    by (simp add: legacy_state_def example_state_def getItem_def getStorageKey_def truthy_str_def)
  show ?thesis
    using legacy_array_decode [OF p, of "''A''" legacy_state] p d g by simp
qed

text \<open>
  Claim C1, as stated, fails on the code: \<open>removeLabel\<close> with the out-of-range index 5 on
  the three labels of \<open>example_state\<close> raises nothing.  It returns normally, with the labels
  unchanged.
\<close>

theorem removeLabel_out_of_range_counterexample:
  "fst (removeLabel 5 example_state) = None
   \<and> labels (snd (removeLabel 5 example_state))
       = LArr [Some (JStr ''a''), Some (JStr ''b''), Some (JStr ''c'')]"
  by code_simp

lemma removeLabel_redraw_throws:
  \<open>fst (removeLabel 0 odd_label_state) = Some TypeError
   \<and> labels (snd (removeLabel 0 odd_label_state)) = LArr [Some (JObj [(''toString'', JNum 1)])]
   \<and> getItem (localStorage (snd (removeLabel 0 odd_label_state))) ''gd-labels-A''
       = Some ''{"labels":[{"toString":1}],"title":"T","url":"https://docs.google.com/document/d/A/edit"}''\<close>
  by code_simp

text \<open>
  Claim C1, amended.  \<open>removeLabel\<close> has no range check and raises no index error.  On a
  label array it removes and persists for every index: for an index inside \<open>[0, length)\<close>
  it removes exactly the element at that position; for an index at or beyond the length it
  removes nothing; for a negative index \<open>i\<close> it removes the element at position
  \<open>max (length + i) 0\<close>, counting from the end as \<open>splice\<close> does.  The resulting list is
  then persisted: when a document id is set and the write fits the quota, the stored value of
  the document is the encoding of the resulting list and the last-known snapshot is its
  serialization.  The call ends with the redraw, and the only exception that can reach the
  caller is a \<open>TypeError\<close> of that redraw, thrown after the removal has been made and
  persisted.  The redraw, and with it the call, completes normally when every label has a
  string conversion (every string has) and so have the titles and urls of the stored
  records.
\<close>

theorem removeLabel_splices_any_index:
  assumes "labels st = LArr xs"
  shows "\<exists>e st'. removeLabel i st = (e, st')
           \<and> labels st' = LArr (splice_remove i xs)
           \<and> (0 \<le> i \<and> i < int (length xs) \<longrightarrow>
                 splice_remove i xs = take (nat i) xs @ drop (Suc (nat i)) xs)
           \<and> (int (length xs) \<le> i \<longrightarrow> splice_remove i xs = xs)
           \<and> (i < 0 \<longrightarrow>
                 splice_remove i xs
                   = take (nat (int (length xs) + i)) xs @ drop (Suc (nat (int (length xs) + i))) xs)
           \<and> (truthy_str (documentId st)
                \<and> storage_size
                     (AList.update (getStorageKey None (documentId st))
                        (encode (LArr (splice_remove i xs)) (pageTitle st) (href st))
                        (items (localStorage st)))
                    \<le> quota (localStorage st)
              \<longrightarrow> getItem (localStorage st') (getStorageKey None (documentId st))
                    = Some (encode (LArr (splice_remove i xs)) (pageTitle st) (href st))
                  \<and> lastKnownLabelsJson st'
                    = JSON_stringify (labels_json (LArr (splice_remove i xs))))
           \<and> (e = None \<or> e = Some TypeError)
           \<and> e = fst (updateLabelsDisplay (saveLabels (st\<lparr>labels := LArr (splice_remove i xs)\<rparr>)))
           \<and> (plain_labels xs \<and> plain_records (localStorage st) \<longrightarrow> e = None)"
proof -
  let ?ys = "splice_remove i xs"
  let ?st1 = "st\<lparr>labels := LArr ?ys\<rparr>"
  let ?r = "updateLabelsDisplay (saveLabels ?st1)"
  have r: "removeLabel i st = (fst ?r, snd ?r)"
    using assms by (simp add: removeLabel_def)
  have l: "labels (snd ?r) = LArr ?ys"
    by (rule drop_result)
  have a: "splice_remove i xs = take (nat i) xs @ drop (Suc (nat i)) xs"
    if "0 \<le> i \<and> i < int (length xs)"
    using that by (simp add: splice_remove_def splice_start_def Let_def)
  have b: "splice_remove i xs = xs" if "int (length xs) \<le> i"
    using that by (rule splice_remove_beyond)
  have c: "splice_remove i xs
      = take (nat (int (length xs) + i)) xs @ drop (Suc (nat (int (length xs) + i))) xs"
    if "i < 0"
    using that by (simp add: splice_remove_def splice_start_def max_def Let_def)
  have p: "getItem (localStorage (snd ?r)) (getStorageKey None (documentId st))
        = Some (encode (LArr ?ys) (pageTitle st) (href st))
      \<and> lastKnownLabelsJson (snd ?r) = JSON_stringify (labels_json (LArr ?ys))"
    if h: "truthy_str (documentId st)
      \<and> storage_size
                (AList.update (getStorageKey None (documentId st))
                   (encode (LArr ?ys) (pageTitle st) (href st)) (items (localStorage st)))
              \<le> quota (localStorage st)"
  proof -
    let ?key = "getStorageKey None (documentId st)"
    let ?v = "encode (LArr ?ys) (pageTitle st) (href st)"
    let ?sto = "(localStorage st)\<lparr>items := AList.update ?key ?v (items (localStorage st))\<rparr>"
    from h have d: "truthy_str (documentId st)"
      and q: "storage_size (AList.update ?key ?v (items (localStorage st))) \<le> quota (localStorage st)"
      by blast+
    have w: "setItem (localStorage ?st1) (getStorageKey None (documentId ?st1))
               (encode (labels ?st1) (pageTitle ?st1) (href ?st1)) = Inr ?sto"
      using q by (simp add: setItem_def Let_def)
    have d1: "truthy_str (documentId ?st1)" using d by simp
    have sv: "saveLabels ?st1
        = ?st1\<lparr>localStorage := ?sto,
               lastKnownLabelsJson := JSON_stringify (labels_json (labels ?st1))\<rparr>"
      using saveLabels_ok [OF d1 w] .
    have "getItem ?sto ?key = Some ?v"
      by (simp add: getItem_def update_conv')
    then show ?thesis
      by (simp add: sv snd_updateLabelsDisplay)
  qed
  have t: "fst ?r = None \<or> fst ?r = Some TypeError"
    using updateLabelsDisplay_error [of "saveLabels ?st1"] by (cases "fst ?r") auto
  have s: "fst ?r = None" if "plain_labels xs \<and> plain_records (localStorage st)"
    using that plain_labels_splice_remove [of xs i] drop_completes [of ?ys st] by blast
  from r l a b c p t s show ?thesis
    by blast
qed

theorem removeLabel_splices_any_index_witness:
  \<open>labels expanded_state = LArr [Some (JStr ''a''), Some (JStr ''b''), Some (JStr ''c'')]
   \<and> plain_labels [Some (JStr ''a''), Some (JStr ''b''), Some (JStr ''c'')]
   \<and> plain_records (localStorage expanded_state)
   \<and> (\<exists>st'. removeLabel 1 expanded_state = (None, st')
          \<and> labels st' = LArr [Some (JStr ''a''), Some (JStr ''c'')]
          \<and> getItem (localStorage st') ''gd-labels-A''
              = Some ''{"labels":["a","c"],"title":"T","url":"https://docs.google.com/document/d/A/edit"}'')\<close>
proof -
  let ?xs = "[Some (JStr ''a''), Some (JStr ''b''), Some (JStr ''c'')]"
  have l: "labels expanded_state = LArr ?xs"
    by (simp add: expanded_state_def example_state_def)
  have s: "splice_remove 1 ?xs = [Some (JStr ''a''), Some (JStr ''c'')]"
    by (simp add: splice_remove_def splice_start_def)
  have p: "plain_labels ?xs"
    by (simp add: plain_labels_def printable_def)
  have q: "plain_records (localStorage expanded_state)"
    by code_simp
  have k: "getStorageKey None (documentId expanded_state) = ''gd-labels-A''"
    by (simp add: expanded_state_def example_state_def getStorageKey_def truthy_str_def)
  have d: "truthy_str (documentId expanded_state)"
    by (simp add: expanded_state_def example_state_def truthy_str_def)
  have v: \<open>encode (LArr [Some (JStr ''a''), Some (JStr ''c'')]) (pageTitle expanded_state)
            (href expanded_state)
      = ''{"labels":["a","c"],"title":"T","url":"https://docs.google.com/document/d/A/edit"}''\<close>
    by (simp add: expanded_state_def example_state_def encode_def quote_def escape_char_def dquote_def bslash_def)
  have f: "storage_size
             (AList.update ''gd-labels-A''
                (encode (LArr [Some (JStr ''a''), Some (JStr ''c'')]) (pageTitle expanded_state)
                   (href expanded_state))
                (items (localStorage expanded_state)))
           \<le> quota (localStorage expanded_state)"
    unfolding v by (simp add: expanded_state_def example_state_def storage_size_def)
  from removeLabel_splices_any_index [OF l, of 1] obtain e st' where
    r: "removeLabel 1 expanded_state = (e, st')"
    and l': "labels st' = LArr (splice_remove 1 ?xs)"
    and g: "truthy_str (documentId expanded_state)
             \<and> storage_size
                 (AList.update (getStorageKey None (documentId expanded_state))
                    (encode (LArr (splice_remove 1 ?xs)) (pageTitle expanded_state)
                       (href expanded_state))
                    (items (localStorage expanded_state)))
               \<le> quota (localStorage expanded_state)
           \<longrightarrow> getItem (localStorage st') (getStorageKey None (documentId expanded_state))
                 = Some (encode (LArr (splice_remove 1 ?xs)) (pageTitle expanded_state)
                           (href expanded_state))
               \<and> lastKnownLabelsJson st' = JSON_stringify (labels_json (LArr (splice_remove 1 ?xs)))"
    and n: "plain_labels ?xs \<and> plain_records (localStorage expanded_state) \<longrightarrow> e = None"
    by blast
  from n p q have e: "e = None"
    by blast
  from g d f have \<open>getItem (localStorage st') ''gd-labels-A''
      = Some ''{"labels":["a","c"],"title":"T","url":"https://docs.google.com/document/d/A/edit"}''\<close>
    unfolding k s v by blast
  with r l' e s l p q show ?thesis
    by simp
qed

section \<open>Properties of parsed objects\<close>


lemma map_of_insert_index:
  "k \<notin> fst ` set kvs \<Longrightarrow> map_of (insert_index k v kvs) = (map_of kvs)(k \<mapsto> v)"
proof (induction kvs)
  case Nil
  then show ?case by simp
next
  case (Cons p ps)
  then have "k \<noteq> fst p" by auto
  then show ?case
    using Cons by (cases p) (auto simp: fun_upd_twist)
qed


lemma map_of_obj_define: "map_of (obj_define kvs k v) = (map_of kvs)(k \<mapsto> v)"
proof -
  have "map_of (kvs @ [(k, v)]) = (map_of kvs)(k \<mapsto> v)" if "k \<notin> fst ` set kvs"
  proof
    fix x
    have n: "map_of kvs k = None"
      using that by (simp add: map_of_eq_None_iff)
    show "map_of (kvs @ [(k, v)]) x = ((map_of kvs)(k \<mapsto> v)) x"
      by (cases "map_of kvs x") (auto simp: map_add_def n)
  qed
  then show ?thesis
    by (simp add: obj_define_def update_conv' map_of_insert_index)
qed






section \<open>Merging a label into a stored record\<close>















section \<open>Importing a payload\<close>

lemma import_docs_count:
  "import_docs gdoc l docs n sto = (Inr n', sto') \<Longrightarrow>
     n' = n + count_list (import_flags gdoc l docs sto) True
     \<and> length (import_flags gdoc l docs sto) = length docs"
proof (induction docs arbitrary: n sto)
  case Nil
  then show ?case by simp
next
  case (Cons doc docs)
  from Cons.prems obtain b sto1 where
    s: "import_doc gdoc l doc sto = Inr (b, sto1)"
    and r: "import_docs gdoc l docs (if b then Suc n else n) sto1 = (Inr n', sto')"
    by (auto split: sum.splits)
  show ?case
    using Cons.IH [OF r] s by simp
qed

lemma failed_not_success:
  "get_prop (import_failed e) ''success'' \<noteq> Inr (Some (JBool True))"
  "get_prop invalid_format ''success'' \<noteq> Inr (Some (JBool True))"
  by (simp_all add: import_failed_def invalid_format_def)

lemma importLabel_success:
  assumes "importLabel s st = (r, st')" and "get_prop r ''success'' = Inr (Some (JBool True))"
  shows "\<exists>payload labelName docs n l.
           JSON_parse s = Some payload
           \<and> get_prop payload ''label'' = Inr (Some labelName)
           \<and> truthy labelName
           \<and> get_prop payload ''documents'' = Inr (Some (JArr docs))
           \<and> import_docs (documentId st) labelName docs 0 (localStorage st) = (Inr n, localStorage st')
           \<and> js_to_string labelName = Inr l
           \<and> r = JObj [(''success'', JBool True), (''message'', JStr (import_message l n))]
           \<and> documentId st' = documentId st
           \<and> updateLabelsDisplay (loadLabels (st\<lparr>localStorage := localStorage st'\<rparr>)) = (None, st')"
proof -
  from assms obtain payload where p: "JSON_parse s = Some payload"
    by (cases "JSON_parse s") (auto simp: importLabel_def failed_not_success)
  from assms p obtain labelName where
    l: "get_prop payload ''label'' = Inr (Some labelName)" and t: "truthy labelName"
    by (auto simp: importLabel_def failed_not_success split: sum.splits option.splits if_splits)
  from assms p l t obtain docs where
    d: "get_prop payload ''documents'' = Inr (Some (JArr docs))"
    by (auto simp: importLabel_def failed_not_success split: sum.splits option.splits json.splits)
  obtain res sto where i: "import_docs (documentId st) labelName docs 0 (localStorage st) = (res, sto)"
    by (cases "import_docs (documentId st) labelName docs 0 (localStorage st)")
  from assms p l t d i obtain n where n: "res = Inr n"
    by (cases res) (auto simp: importLabel_def failed_not_success)
  obtain e st1 where u: "updateLabelsDisplay (loadLabels (st\<lparr>localStorage := sto\<rparr>)) = (e, st1)"
    by (cases "updateLabelsDisplay (loadLabels (st\<lparr>localStorage := sto\<rparr>))")
  from assms p l t d i n u have e: "e = None"
    by (cases e) (auto simp: importLabel_def failed_not_success)
  from assms p l t d i n u e obtain lt where
    x: "js_to_string labelName = Inr lt"
    and r: "r = JObj [(''success'', JBool True), (''message'', JStr (import_message lt n))]"
    and s: "st' = st1"
    by (cases "js_to_string labelName") (auto simp: importLabel_def failed_not_success)
  have s1: "st1 = snd (updateLabelsDisplay (loadLabels (st\<lparr>localStorage := sto\<rparr>)))"
    by (simp add: u)
  have ls: "localStorage st' = sto"
    by (simp add: s s1 localStorage_updateLabelsDisplay localStorage_loadLabels)
  have "documentId st' = documentId st"
    by (simp add: s s1 snd_updateLabelsDisplay loadLabels_def split: sum.splits option.splits)
  moreover have "updateLabelsDisplay (loadLabels (st\<lparr>localStorage := localStorage st'\<rparr>)) = (None, st')"
    unfolding ls using u e s by simp
  ultimately show ?thesis
    using p l t d i n x r ls by blast
qed



lemma import_doc_counted:
  assumes "import_doc gdoc l doc sto = Inr (True, sto')"
  shows "\<exists>docId kvs xs.
           getItem sto' (getStorageKey (Some docId) gdoc) = Some (JSON_stringify (JObj kvs))
           \<and> map_of kvs ''labels'' = Some (JArr (xs @ [l]))
           \<and> js_includes (JArr xs) (Some l) = Inr False"
proof -
  from assms obtain u s docId t where
    "get_prop doc ''url'' = Inr (Some u)" and "u = JStr s"
    and "getDocumentIdFromUrl s = Some docId" and "get_prop doc ''title'' = Inr t"
    and m: "merge_label (getStorageKey (Some docId) gdoc)
              (existing_data [(''labels'', JArr []), (''title'', js_or t (JStr ''Untitled'')), (''url'', u)]
                 (getItem sto (getStorageKey (Some docId) gdoc))) l sto = Inr (True, sto')"
    by (auto simp: import_doc_def Let_def split: sum.splits option.splits if_splits json.splits)
  from m obtain kvs xs where
    "map_of kvs ''labels'' = Some (JArr xs)" and i: "js_includes (JArr xs) (Some l) = Inr False"
    and w: "setItem sto (getStorageKey (Some docId) gdoc)
              (JSON_stringify (JObj (obj_define kvs ''labels'' (JArr (xs @ [l]))))) = Inr sto'"
    by (auto simp: merge_label_def split: json.splits option.splits sum.splits if_splits)
  have "getItem sto' (getStorageKey (Some docId) gdoc)
      = Some (JSON_stringify (JObj (obj_define kvs ''labels'' (JArr (xs @ [l])))))"
    using getItem_setItem [OF w, of "getStorageKey (Some docId) gdoc"] by simp
  moreover have "map_of (obj_define kvs ''labels'' (JArr (xs @ [l]))) ''labels'' = Some (JArr (xs @ [l]))"
    by (simp add: map_of_obj_define)
  ultimately show ?thesis
    using i by blast
qed

lemma import_doc_not_counted:
  "import_doc gdoc l doc sto = Inr (False, sto') \<Longrightarrow> sto' = sto"
  by (auto simp: import_doc_def merge_label_def Let_def
        split: sum.splits option.splits if_splits json.splits)

text \<open>
  Claim C3, as stated, fails on the code: the object returned by a successful import has the
  fields \<open>success\<close> and \<open>message\<close> only.  Importing a payload with no documents succeeds,
  and its result has no \<open>importedCount\<close> field.
\<close>

theorem import_result_has_no_count_counterexample:
  "get_prop (fst (importLabel payload_empty example_state)) ''success'' = Inr (Some (JBool True))
   \<and> get_prop (fst (importLabel payload_empty example_state)) ''importedCount'' = Inr None"
  by code_simp

text \<open>
  Claim C3, amended.  For every successful import of a payload with label \<open>L\<close>, the returned
  result is exactly \<open>{success: true, message: "Imported label \"L\" to N document(s)."}\<close>,
  where \<open>L\<close> is the label converted to a string and \<open>N\<close> is the number of entries of the
  payload for which the label was newly appended to the target document's record; the result
  has no \<open>importedCount\<close> field.
\<close>

theorem import_success_result:
  assumes "importLabel s st = (r, st')" and "get_prop r ''success'' = Inr (Some (JBool True))"
  shows "\<exists>payload labelName docs l.
           JSON_parse s = Some payload
           \<and> get_prop payload ''label'' = Inr (Some labelName)
           \<and> get_prop payload ''documents'' = Inr (Some (JArr docs))
           \<and> js_to_string labelName = Inr l
           \<and> r = JObj [(''success'', JBool True),
                       (''message'',
                        JStr (''Imported label '' @ [dquote] @ l @ [dquote] @ '' to ''
                              @ show_int (int (count_list
                                   (import_flags (documentId st) labelName docs (localStorage st)) True))
                              @ '' document(s).''))]
           \<and> get_prop r ''importedCount'' = Inr None"
proof -
  from importLabel_success [OF assms] obtain payload labelName docs n l where
    p: "JSON_parse s = Some payload"
    and lb: "get_prop payload ''label'' = Inr (Some labelName)"
    and d: "get_prop payload ''documents'' = Inr (Some (JArr docs))"
    and i: "import_docs (documentId st) labelName docs 0 (localStorage st) = (Inr n, localStorage st')"
    and x: "js_to_string labelName = Inr l"
    and r: "r = JObj [(''success'', JBool True), (''message'', JStr (import_message l n))]"
    by blast
  have n: "n = count_list (import_flags (documentId st) labelName docs (localStorage st)) True"
    using import_docs_count [OF i] by simp
  have "get_prop r ''importedCount'' = Inr None"
    by (simp add: r)
  then show ?thesis
    using p lb d x r n by (auto simp: import_message_def)
qed

theorem import_success_result_witness:
  \<open>get_prop (fst (importLabel payload_one example_state)) ''success'' = Inr (Some (JBool True))
   \<and> (\<exists>payload labelName docs l.
         JSON_parse payload_one = Some payload
         \<and> get_prop payload ''label'' = Inr (Some labelName)
         \<and> get_prop payload ''documents'' = Inr (Some (JArr docs))
         \<and> js_to_string labelName = Inr l
         \<and> fst (importLabel payload_one example_state)
             = JObj [(''success'', JBool True),
                     (''message'',
                      JStr (''Imported label '' @ [dquote] @ l @ [dquote] @ '' to ''
                            @ show_int (int (count_list
                                 (import_flags (documentId example_state) labelName docs
                                    (localStorage example_state)) True))
                            @ '' document(s).''))]
         \<and> get_prop (fst (importLabel payload_one example_state)) ''importedCount'' = Inr None)
   \<and> fst (importLabel payload_one example_state)
       = JObj [(''success'', JBool True), (''message'', JStr ''Imported label "L" to 1 document(s).'')]\<close>
proof -
  have s: "get_prop (fst (importLabel payload_one example_state)) ''success'' = Inr (Some (JBool True))"
    by code_simp
  have e: \<open>fst (importLabel payload_one example_state)
      = JObj [(''success'', JBool True), (''message'', JStr ''Imported label "L" to 1 document(s).'')]\<close>
    by code_simp
  have c: "importLabel payload_one example_state
      = (fst (importLabel payload_one example_state), snd (importLabel payload_one example_state))"
    by simp
  from import_success_result [OF c s] s e show ?thesis
    by blast
qed



lemma import_rejects_without_writing:
  "JSON_parse s = None \<Longrightarrow> snd (importLabel s st) = st"
  "JSON_parse s = Some payload \<Longrightarrow> get_prop payload ''label'' = Inl e \<Longrightarrow> snd (importLabel s st) = st"
  "JSON_parse s = Some payload \<Longrightarrow> get_prop payload ''label'' = Inr None \<Longrightarrow> snd (importLabel s st) = st"
  "JSON_parse s = Some payload \<Longrightarrow> get_prop payload ''label'' = Inr (Some v) \<Longrightarrow> \<not> truthy v
     \<Longrightarrow> snd (importLabel s st) = st"
  "JSON_parse s = Some payload \<Longrightarrow> \<forall>docs. get_prop payload ''documents'' \<noteq> Inr (Some (JArr docs))
     \<Longrightarrow> snd (importLabel s st) = st"
  by (auto simp: importLabel_def split: sum.splits option.splits json.splits)

lemma import_doc_skips:
  "get_prop doc ''url'' = Inr None \<Longrightarrow> import_doc gdoc l doc sto = Inr (False, sto)"
  "get_prop doc ''url'' = Inr (Some u) \<Longrightarrow> \<not> truthy u \<Longrightarrow> import_doc gdoc l doc sto = Inr (False, sto)"
  "get_prop doc ''url'' = Inr (Some (JStr s)) \<Longrightarrow> getDocumentIdFromUrl s = None
     \<Longrightarrow> import_doc gdoc l doc sto = Inr (False, sto)"
  by (auto simp: import_doc_def)

text \<open>
  Claim C2.  The claim is that a failure affecting one entry of the payload, a substrate
  write failure included, never stops the remaining entries from being processed.  The code
  does not meet it.  The callback of \<open>forEach\<close> guards only the read of the existing record
  with its own \<open>try\<close>; \<open>localStorage.setItem\<close> is outside it, so a failing write leaves
  the loop through the outer \<open>catch\<close>.  With room for 100 characters, the record of the first
  entry (document \<open>B\<close>) does not fit; the import returns a failure, and document \<open>C\<close> of
  the second entry is never labelled, although importing that entry alone succeeds on the
  same substrate.
\<close>

theorem import_write_failure_aborts:
  \<open>fst (importLabel payload_two nearly_full_state) = import_failed QuotaExceededError
   \<and> getItem (localStorage (snd (importLabel payload_two nearly_full_state))) ''gd-labels-C'' = None
   \<and> get_prop (fst (importLabel payload_second nearly_full_state)) ''success''
       = Inr (Some (JBool True))
   \<and> getItem (localStorage (snd (importLabel payload_second nearly_full_state))) ''gd-labels-C''
       = Some ''{"labels":["L"],"title":"Untitled","url":"https://docs.google.com/document/d/C/edit"}''\<close>
  by code_simp

end
